theory Spec2Isabelle
  imports Main
begin

section \<open>The JavaScript Date operations used by the dashboard\<close>

text \<open>
  Both dashboards compute their date range with four operations of the host language:
  \<^verbatim>\<open>new Date(string)\<close>, \<^verbatim>\<open>getDate()\<close>, \<^verbatim>\<open>setDate(n)\<close> and \<^verbatim>\<open>toISOString()\<close>.
  Their meaning is fixed by ECMA-262 (section "Date Objects"); the definitions below follow
  the abstract operations of that section under their own names. A time value is a number
  of milliseconds since 1970-01-01T00:00:00Z, or NaN, which is \<open>None\<close> here.
  A date-only string is read as UTC midnight, \<^verbatim>\<open>toISOString\<close> prints UTC fields, while
  \<^verbatim>\<open>getDate\<close> and \<^verbatim>\<open>setDate\<close> work on local time.
\<close>

subsection \<open>Day number and time within day\<close>

definition msPerDay :: int where
  "msPerDay = 86400000"

definition msPerHour :: int where
  "msPerHour = 3600000"

definition msPerMinute :: int where
  "msPerMinute = 60000"

definition msPerSecond :: int where
  "msPerSecond = 1000"

definition Day :: "int \<Rightarrow> int" where
  "Day t = t div msPerDay"

definition TimeWithinDay :: "int \<Rightarrow> int" where
  "TimeWithinDay t = t mod msPerDay"

subsection \<open>Years\<close>

definition leap_year :: "int \<Rightarrow> bool" where
  "leap_year y \<longleftrightarrow> (y mod 4 = 0 \<and> y mod 100 \<noteq> 0) \<or> y mod 400 = 0"

definition DaysInYear :: "int \<Rightarrow> int" where
  "DaysInYear y = (if leap_year y then 366 else 365)"

definition DayFromYear :: "int \<Rightarrow> int" where
  "DayFromYear y =
     365 * (y - 1970) + (y - 1969) div 4 - (y - 1901) div 100 + (y - 1601) div 400"

text \<open>
  ECMA-262 defines \<open>YearFromTime t\<close> as the largest \<open>y\<close> with \<open>TimeFromYear y \<le> t\<close>.
  The executable form estimates the year from the mean length of a Gregorian year
  (146097 days in 400 years) and corrects the estimate by at most one; lemma
  \<open>YearFromDay_bounds\<close> below shows that it is the year of the standard.
\<close>

definition YearFromDay :: "int \<Rightarrow> int" where
  "YearFromDay d =
     (let y = 1970 + (400 * d) div 146097
      in if DayFromYear (y + 1) \<le> d then y + 1
         else if DayFromYear y \<le> d then y
         else y - 1)"

definition YearFromTime :: "int \<Rightarrow> int" where
  "YearFromTime t = YearFromDay (Day t)"

definition InLeapYear :: "int \<Rightarrow> int" where
  "InLeapYear t = (if leap_year (YearFromTime t) then 1 else 0)"

definition DayWithinYear :: "int \<Rightarrow> int" where
  "DayWithinYear t = Day t - DayFromYear (YearFromTime t)"

subsection \<open>Months and days of the month\<close>

text \<open>The first day of month \<open>m\<close> (0 = January) within a year; \<open>l\<close> is 1 in a leap year.\<close>

definition month_start :: "int \<Rightarrow> int \<Rightarrow> int" where
  "month_start l m =
     (if m = 0 then 0 else if m = 1 then 31 else if m = 2 then 59 + l
      else if m = 3 then 90 + l else if m = 4 then 120 + l else if m = 5 then 151 + l
      else if m = 6 then 181 + l else if m = 7 then 212 + l else if m = 8 then 243 + l
      else if m = 9 then 273 + l else if m = 10 then 304 + l else if m = 11 then 334 + l
      else 365 + l)"

definition month_of_yday :: "int \<Rightarrow> int \<Rightarrow> int" where
  "month_of_yday l d =
     (if d < 31 then 0 else if d < 59 + l then 1 else if d < 90 + l then 2
      else if d < 120 + l then 3 else if d < 151 + l then 4 else if d < 181 + l then 5
      else if d < 212 + l then 6 else if d < 243 + l then 7 else if d < 273 + l then 8
      else if d < 304 + l then 9 else if d < 334 + l then 10 else 11)"

definition MonthFromTime :: "int \<Rightarrow> int" where
  "MonthFromTime t = month_of_yday (InLeapYear t) (DayWithinYear t)"

definition DateFromTime :: "int \<Rightarrow> int" where
  "DateFromTime t =
     DayWithinYear t - month_start (InLeapYear t) (MonthFromTime t) + 1"

definition DaysInMonth :: "int \<Rightarrow> int \<Rightarrow> int" where
  "DaysInMonth y m =
     (let l = (if leap_year y then 1 else 0) in month_start l (m + 1) - month_start l m)"

subsection \<open>Building time values\<close>

text \<open>
  \<open>MakeDay year month date\<close>: the day number of the first of the month, plus \<open>date - 1\<close>.
  A month outside 0..11 carries into the year, a date outside the month carries into the
  neighbouring months; this is what makes \<^verbatim>\<open>setDate(getDate() - 7)\<close> cross month ends.
\<close>

definition MakeDay :: "int \<Rightarrow> int \<Rightarrow> int \<Rightarrow> int" where
  "MakeDay year month date =
     (let ym = year + month div 12;
          mn = month mod 12
      in DayFromYear ym + month_start (if leap_year ym then 1 else 0) mn + date - 1)"

definition MakeDate :: "int \<Rightarrow> int \<Rightarrow> int" where
  "MakeDate day time = day * msPerDay + time"

definition TimeClip :: "int \<Rightarrow> int option" where
  "TimeClip t = (if \<bar>t\<bar> > 8640000000000000 then None else Some t)"

subsection \<open>Local time\<close>

text \<open>
  The time zone of the browser is not part of the program: it is a parameter.
  \<open>tza_utc t\<close> is the offset in force at the UTC instant \<open>t\<close> (LocalTZA(t, true)),
  \<open>tza_local t\<close> the offset used to read the local time value \<open>t\<close> (LocalTZA(t, false)).
\<close>

record timezone =
  tza_utc :: "int \<Rightarrow> int"
  tza_local :: "int \<Rightarrow> int"

definition LocalTime :: "timezone \<Rightarrow> int \<Rightarrow> int" where
  "LocalTime z t = t + tza_utc z t"

definition UTC :: "timezone \<Rightarrow> int \<Rightarrow> int" where
  "UTC z t = t - tza_local z t"

definition fixed_zone :: "int \<Rightarrow> timezone" where
  "fixed_zone c = \<lparr>tza_utc = (\<lambda>_. c), tza_local = (\<lambda>_. c)\<rparr>"

text \<open>
  A zone with daylight saving time, for concrete runs: America/New_York in 2024
  (UTC-5; UTC-4 from 2024-03-10T07:00Z until 2024-11-03T06:00Z). A local time that is
  skipped or repeated at a transition is read with the offset before the transition.
\<close>

definition new_york_2024 :: timezone where
  "new_york_2024 =
     \<lparr>tza_utc = (\<lambda>t. if MakeDate (MakeDay 2024 2 10) (7 * msPerHour) \<le> t
                         \<and> t < MakeDate (MakeDay 2024 10 3) (6 * msPerHour)
                      then - 4 * msPerHour else - 5 * msPerHour),
      tza_local = (\<lambda>t. if MakeDate (MakeDay 2024 2 10) (3 * msPerHour) \<le> t
                           \<and> t < MakeDate (MakeDay 2024 10 3) (2 * msPerHour)
                        then - 4 * msPerHour else - 5 * msPerHour)\<rparr>"

text \<open>
  Apia at the end of 2011: ten hours behind UTC until the end of December 29, fourteen
  hours ahead from December 31, 00:00; December 30 did not exist there. A local time that
  was skipped is read with the offset before the transition.
\<close>

definition apia_2011 :: timezone where
  "apia_2011 =
     \<lparr>tza_utc = (\<lambda>t. if t < MakeDate (MakeDay 2011 11 30) (10 * msPerHour)
                        then - 10 * msPerHour else 14 * msPerHour),
      tza_local = (\<lambda>t. if t < MakeDate (MakeDay 2011 11 31) 0
                          then - 10 * msPerHour else 14 * msPerHour)\<rparr>"

subsection \<open>Decimal digits\<close>

definition digit_char :: "nat \<Rightarrow> char" where
  "digit_char n = ''0123456789'' ! (n mod 10)"

definition digit_val :: "char \<Rightarrow> nat option" where
  "digit_val =
     map_of [(CHR ''0'', 0), (CHR ''1'', 1), (CHR ''2'', 2), (CHR ''3'', 3), (CHR ''4'', 4),
             (CHR ''5'', 5), (CHR ''6'', 6), (CHR ''7'', 7), (CHR ''8'', 8), (CHR ''9'', 9)]"

text \<open>\<open>pad w n\<close>: the last \<open>w\<close> decimal digits of \<open>n\<close>, zero-padded.\<close>

fun pad :: "nat \<Rightarrow> nat \<Rightarrow> string" where
  "pad 0 n = []"
| "pad (Suc w) n = pad w (n div 10) @ [digit_char n]"

text \<open>Reading a run of digits, most significant first; \<open>None\<close> on any other character.\<close>

fun read_digits :: "nat \<Rightarrow> string \<Rightarrow> nat option" where
  "read_digits acc [] = Some acc"
| "read_digits acc (c # cs) =
     (case digit_val c of None \<Rightarrow> None | Some v \<Rightarrow> read_digits (10 * acc + v) cs)"

subsection \<open>Parsing and printing\<close>

text \<open>
  \<^verbatim>\<open>new Date(s)\<close> for the date-only form \<^verbatim>\<open>YYYY-MM-DD\<close> of the ECMA-262 date-time string
  format: UTC midnight of that day. A string with a month or day out of range is not an
  instance of the format. What a browser does with a string outside the format is left to
  the implementation by the standard; the model reads such strings as Invalid Date, and no
  result below relies on it.
\<close>

definition Date_parse :: "string \<Rightarrow> int option" where
  "Date_parse s =
     (if length s = 10 \<and> s ! 4 = CHR ''-'' \<and> s ! 7 = CHR ''-'' then
        (case (read_digits 0 (take 4 s), read_digits 0 (take 2 (drop 5 s)),
               read_digits 0 (drop 8 s)) of
           (Some y, Some m, Some d) \<Rightarrow>
             if 1 \<le> m \<and> m \<le> 12 \<and> 1 \<le> d \<and> int d \<le> DaysInMonth (int y) (int m - 1)
             then TimeClip (MakeDate (MakeDay (int y) (int m - 1) (int d)) 0)
             else None
         | _ \<Rightarrow> None)
      else None)"

datatype exn =
    RangeError
  | TypeError
  | NetworkError
  | ServerError "string option"

text \<open>
  \<open>RangeError\<close> is what \<^verbatim>\<open>toISOString\<close> throws on an Invalid Date, \<open>TypeError\<close> what
  reading a property of \<^verbatim>\<open>null\<close> throws. The other two are the rejections of the HTTP
  client: \<open>NetworkError\<close> has no response, \<open>ServerError e\<close> has a response whose body
  carries the field \<^verbatim>\<open>error\<close> with value \<open>e\<close> (\<open>None\<close> when the field is absent).
\<close>

definition year_string :: "int \<Rightarrow> string" where
  "year_string y =
     (if 0 \<le> y \<and> y \<le> 9999 then pad 4 (nat y)
      else (if y < 0 then ''-'' else ''+'') @ pad 6 (nat \<bar>y\<bar>))"

definition iso_date :: "int \<Rightarrow> string" where
  "iso_date t =
     year_string (YearFromTime t) @ ''-'' @ pad 2 (nat (MonthFromTime t + 1))
       @ ''-'' @ pad 2 (nat (DateFromTime t))"

definition iso_time :: "int \<Rightarrow> string" where
  "iso_time t =
     pad 2 (nat (TimeWithinDay t div msPerHour)) @ '':''
       @ pad 2 (nat (TimeWithinDay t mod msPerHour div msPerMinute)) @ '':''
       @ pad 2 (nat (TimeWithinDay t mod msPerMinute div msPerSecond)) @ ''.''
       @ pad 3 (nat (TimeWithinDay t mod msPerSecond))"

definition toISOString :: "int option \<Rightarrow> exn + string" where
  "toISOString tv =
     (case tv of
        None \<Rightarrow> Inl RangeError
      | Some t \<Rightarrow> Inr (iso_date t @ ''T'' @ iso_time t @ ''Z''))"

definition getDate :: "timezone \<Rightarrow> int option \<Rightarrow> int option" where
  "getDate z tv = (case tv of None \<Rightarrow> None | Some t \<Rightarrow> Some (DateFromTime (LocalTime z t)))"

text \<open>\<^verbatim>\<open>setDate(dt)\<close>: the new time value of the Date object; \<open>dt = None\<close> is NaN.\<close>

definition setDate :: "timezone \<Rightarrow> int option \<Rightarrow> int option \<Rightarrow> int option" where
  "setDate z tv dt =
     (case tv of
        None \<Rightarrow> None
      | Some t0 \<Rightarrow>
          (case dt of
             None \<Rightarrow> None
           | Some n \<Rightarrow>
               (let t = LocalTime z t0;
                    newDate = MakeDate (MakeDay (YearFromTime t) (MonthFromTime t) n)
                                (TimeWithinDay t)
                in TimeClip (UTC z newDate))))"

text \<open>\<^verbatim>\<open>const formatDate = (date: Date) => date.toISOString().split("T")[0]\<close>\<close>

definition formatDate :: "int option \<Rightarrow> exn + string" where
  "formatDate date =
     (case toISOString date of
        Inl e \<Rightarrow> Inl e
      | Inr s \<Rightarrow> Inr (takeWhile (\<lambda>c. c \<noteq> CHR ''T'') s))"


section \<open>The dashboard component (src/frontend/src/pages/Dashboard.tsx)\<close>

subsection \<open>State\<close>

datatype MainTimeframe = Live | Yesterday | Weekly | Monthly | Custom

datatype ConnectedCallsTimeframe = Min15 | Min30 | Hour1

datatype ASRTimeframe = ByHour | ByDay | ByWeek | ByMonth

text \<open>
  The body of a \<^verbatim>\<open>/report\<close> response: the aggregates, which the component only stores and
  displays, and the optional field \<^verbatim>\<open>balance\<close> (\<open>None\<close> when the field is undefined).
\<close>

record ('r, 'n) report_data =
  aggregates :: 'r
  balance_field :: "'n option"

text \<open>The \<^verbatim>\<open>useState\<close> cells of the component; \<open>None\<close> is \<^verbatim>\<open>null\<close>.\<close>

record ('r, 'n) dashboard =
  data :: "('r, 'n) report_data option"
  loading :: bool
  error :: "string option"
  serverDate :: string
  balance :: 'n
  timeframe :: MainTimeframe
  customStart :: string
  customEnd :: string
  refreshKey :: nat
  asrTimeframe :: ASRTimeframe
  connectedCallsTimeframe :: ConnectedCallsTimeframe

definition initial_dashboard :: "('r, 'n::zero) dashboard" where
  "initial_dashboard =
     \<lparr>data = None, loading = False, error = None, serverDate = [], balance = 0,
      timeframe = Live, customStart = [], customEnd = [], refreshKey = 0,
      asrTimeframe = ByDay, connectedCallsTimeframe = Min30\<rparr>"

subsection \<open>Effects\<close>

text \<open>
  An asynchronous function of the component reads the state cells of the render that
  created it and acts on the outside only through setter calls, HTTP requests and the
  console. Its run is the list of these actions in program order, together with its
  result: \<open>Inl e\<close> when it ends by throwing \<open>e\<close>.
\<close>

datatype ('r, 'n) effect =
    SetData "('r, 'n) report_data option"
  | SetLoading bool
  | SetError "string option"
  | SetServerDate string
  | SetBalance 'n
  | IncRefreshKey
  | Get string "(string \<times> string) list"
  | ConsoleError string

fun apply_effect :: "('r, 'n) dashboard \<Rightarrow> ('r, 'n) effect \<Rightarrow> ('r, 'n) dashboard" where
  "apply_effect s (SetData d) = s\<lparr>data := d\<rparr>"
| "apply_effect s (SetLoading b) = s\<lparr>loading := b\<rparr>"
| "apply_effect s (SetError e) = s\<lparr>error := e\<rparr>"
| "apply_effect s (SetServerDate d) = s\<lparr>serverDate := d\<rparr>"
| "apply_effect s (SetBalance b) = s\<lparr>balance := b\<rparr>"
| "apply_effect s IncRefreshKey = s\<lparr>refreshKey := refreshKey s + 1\<rparr>"
| "apply_effect s (Get url params) = s"
| "apply_effect s (ConsoleError m) = s"

definition apply_effects :: "('r, 'n) dashboard \<Rightarrow> ('r, 'n) effect list \<Rightarrow> ('r, 'n) dashboard" where
  "apply_effects s es = foldl apply_effect s es"

text \<open>
  What the outside answers: the browser's time zone and clock, and the outcome of the
  requests (\<open>Inl\<close>: the promise is rejected). The reply to \<^verbatim>\<open>/report\<close> may depend on
  the query parameters \<^verbatim>\<open>start_date\<close> and \<^verbatim>\<open>end_date\<close>; its body may be \<^verbatim>\<open>null\<close>.
  The reply to \<^verbatim>\<open>/balance\<close> is the field \<^verbatim>\<open>current_balance\<close> (\<open>None\<close> when undefined).
  The network also decides in which order the calls that are under way at the same time
  get their replies: \<open>schedule\<close> lists, reply after reply, which of the waiting calls
  goes on (see \<open>run_tasks\<close> below).
\<close>

record ('r, 'n) world =
  zone :: timezone
  clock :: int
  server_date_reply :: "exn + string"
  report_reply :: "string \<Rightarrow> string \<Rightarrow> exn + ('r, 'n) report_data option"
  balance_reply :: "exn + 'n option"
  schedule :: "nat list"

subsection \<open>fetchServerDate\<close>

definition fetchServerDate :: "('r, 'n) world \<Rightarrow> ('r, 'n) effect list \<times> (exn + string)" where
  "fetchServerDate w =
     (case server_date_reply w of
        Inr sd \<Rightarrow> ([Get ''/server-date'' [], SetServerDate sd], Inr sd)
      | Inl e \<Rightarrow>
          (case formatDate (Some (clock w)) of
             Inl e' \<Rightarrow> ([Get ''/server-date'' [], ConsoleError ''fetchServerDate:''], Inl e')
           | Inr fallback \<Rightarrow>
               ([Get ''/server-date'' [], ConsoleError ''fetchServerDate:'',
                 SetServerDate fallback], Inr fallback)))"

subsection \<open>getDateRange\<close>

text \<open>\<^verbatim>\<open>const d = new Date(today); d.setDate(d.getDate() - n); formatDate(d)\<close>\<close>

definition days_before :: "timezone \<Rightarrow> int \<Rightarrow> string \<Rightarrow> exn + string" where
  "days_before z n today =
     (let d = Date_parse today
      in formatDate (setDate z d (map_option (\<lambda>k. k - n) (getDate z d))))"

text \<open>
  The body of \<^verbatim>\<open>getDateRange\<close> after \<open>today\<close> is known: the branches on the timeframe,
  in the order of the source.
\<close>

definition range_for :: "timezone \<Rightarrow> ('r, 'n) dashboard \<Rightarrow> string \<Rightarrow> exn + string \<times> string" where
  "range_for z s today =
     (if timeframe s = Yesterday then
        (case days_before z 1 today of
           Inl e \<Rightarrow> Inl e
         | Inr y \<Rightarrow> Inr (y, y))
      else if timeframe s = Weekly then
        (case days_before z 7 today of
           Inl e \<Rightarrow> Inl e
         | Inr startDate \<Rightarrow> Inr (startDate, today))
      else if timeframe s = Monthly then
        (case days_before z 30 today of
           Inl e \<Rightarrow> Inl e
         | Inr startDate \<Rightarrow> Inr (startDate, today))
      else if timeframe s = Custom then
        Inr (if customStart s \<noteq> [] then customStart s else today,
             if customEnd s \<noteq> [] then customEnd s else today)
      else Inr (today, today))"

text \<open>
  The reference date, \<^verbatim>\<open>serverDate || (await fetchServerDate())\<close>: the stored server
  date, or, when none is stored, what \<^verbatim>\<open>fetchServerDate\<close> returns.
\<close>

definition today_of :: "('r, 'n) world \<Rightarrow> ('r, 'n) dashboard \<Rightarrow> ('r, 'n) effect list \<times> (exn + string)" where
  "today_of w s = (if serverDate s \<noteq> [] then ([], Inr (serverDate s)) else fetchServerDate w)"

text \<open>\<^verbatim>\<open>const today = serverDate || (await fetchServerDate())\<close>, then the branches.\<close>

definition getDateRange ::
  "('r, 'n) world \<Rightarrow> ('r, 'n) dashboard \<Rightarrow> ('r, 'n) effect list \<times> (exn + string \<times> string)" where
  "getDateRange w s =
     (let (es, r) = (if serverDate s \<noteq> [] then ([], Inr (serverDate s)) else fetchServerDate w)
      in case r of
           Inl e \<Rightarrow> (es, Inl e)
         | Inr today \<Rightarrow> (es, range_for (zone w) s today))"

subsection \<open>fetchReport\<close>

definition report_request :: "string \<Rightarrow> string \<Rightarrow> ('r, 'n) effect" where
  "report_request startDate endDate =
     Get ''/report''
       [(''campaign'', ''0006''), (''start_date'', startDate), (''end_date'', endDate)]"

text \<open>\<^verbatim>\<open>Number(res.data.balance || 0)\<close> on a number.\<close>

definition or_zero :: "'n::zero \<Rightarrow> 'n" where
  "or_zero b = (if b = 0 then 0 else b)"

text \<open>
  \<^verbatim>\<open>if (res.data && res.data.balance !== undefined) setBalance(Number(res.data.balance || 0))\<close>
\<close>

definition balance_effects :: "('r, 'n::zero) report_data option \<Rightarrow> ('r, 'n) effect list" where
  "balance_effects d =
     (case d of
        None \<Rightarrow> []
      | Some rd \<Rightarrow> (case balance_field rd of None \<Rightarrow> [] | Some b \<Rightarrow> [SetBalance (or_zero b)]))"

text \<open>The statements of the \<^verbatim>\<open>try\<close> block, up to the first one that throws.\<close>

definition fetchReport_try ::
  "('r, 'n::zero) world \<Rightarrow> bool \<Rightarrow> ('r, 'n) dashboard \<Rightarrow> ('r, 'n) effect list \<times> (exn + unit)" where
  "fetchReport_try w silent s =
     (let l = (if \<not> silent then [SetLoading True] else []);
          (ds, r) = getDateRange w s
      in case r of
           Inl e \<Rightarrow> (l @ ds, Inl e)
         | Inr (startDate, endDate) \<Rightarrow>
             (case report_reply w startDate endDate of
                Inl e \<Rightarrow> (l @ ds @ [report_request startDate endDate], Inl e)
              | Inr d \<Rightarrow>
                  (l @ ds @ [report_request startDate endDate, SetData d]
                     @ balance_effects d @ [SetError None],
                   Inr ())))"

text \<open>\<^verbatim>\<open>e?.response?.data?.error || "Failed to fetch report"\<close>\<close>

definition error_message :: "exn \<Rightarrow> string" where
  "error_message e =
     (case e of
        ServerError (Some m) \<Rightarrow> if m \<noteq> [] then m else ''Failed to fetch report''
      | _ \<Rightarrow> ''Failed to fetch report'')"

definition fetchReport_catch :: "exn \<Rightarrow> ('r, 'n) effect list" where
  "fetchReport_catch e = [ConsoleError ''fetchReport:'', SetError (Some (error_message e))]"

definition fetchReport ::
  "('r, 'n::zero) world \<Rightarrow> bool \<Rightarrow> ('r, 'n) dashboard \<Rightarrow> ('r, 'n) effect list \<times> (exn + unit)" where
  "fetchReport w silent s =
     (let (es, r) = fetchReport_try w silent s;
          (hs, r') = (case r of Inl e \<Rightarrow> (fetchReport_catch e, Inr ()) | Inr u \<Rightarrow> ([], Inr u));
          fs = (if \<not> silent then [SetLoading False] else [])
      in (es @ hs @ fs, r'))"

text \<open>A fetch fails when its \<^verbatim>\<open>try\<close> block throws, and succeeds otherwise.\<close>

definition fetch_fails :: "('r, 'n::zero) world \<Rightarrow> bool \<Rightarrow> ('r, 'n) dashboard \<Rightarrow> bool" where
  "fetch_fails w silent s = (case snd (fetchReport_try w silent s) of Inl e \<Rightarrow> True | Inr u \<Rightarrow> False)"


subsection \<open>The other fetches\<close>

definition fetchBalance :: "('r, 'n::zero) world \<Rightarrow> ('r, 'n) effect list" where
  "fetchBalance w =
     (case balance_reply w of
        Inr b \<Rightarrow>
          [Get ''/balance'' [], SetBalance (case b of None \<Rightarrow> 0 | Some x \<Rightarrow> or_zero x)]
      | Inl e \<Rightarrow> [Get ''/balance'' [], ConsoleError ''fetchBalance:''])"

text \<open>
  The two chart fetches write only the chart cells (\<^verbatim>\<open>asrChartData\<close>,
  \<^verbatim>\<open>connectedCallsData\<close>, \<^verbatim>\<open>chartLoading\<close>), which are not among the cells above: a
  chart fetch is its request.
\<close>

definition asr_name :: "ASRTimeframe \<Rightarrow> string" where
  "asr_name t = (case t of ByHour \<Rightarrow> ''hour'' | ByDay \<Rightarrow> ''day'' | ByWeek \<Rightarrow> ''week''
     | ByMonth \<Rightarrow> ''month'')"

definition cc_name :: "ConnectedCallsTimeframe \<Rightarrow> string" where
  "cc_name t = (case t of Min15 \<Rightarrow> ''15min'' | Min30 \<Rightarrow> ''30min'' | Hour1 \<Rightarrow> ''1hour'')"

definition fetchASRChart :: "('r, 'n) dashboard \<Rightarrow> ('r, 'n) effect list" where
  "fetchASRChart s =
     [Get ''/chart/asr'' [(''timeframe'', asr_name (asrTimeframe s)), (''campaign'', ''0006'')]]"

definition fetchConnectedCallsChart :: "('r, 'n) dashboard \<Rightarrow> ('r, 'n) effect list" where
  "fetchConnectedCallsChart s =
     [Get ''/chart/connected-calls-live''
        [(''timeframe'', cc_name (connectedCallsTimeframe s)), (''campaign'', ''0006'')]]"

subsection \<open>Calls that are not awaited\<close>

text \<open>
  The interval callback, the Refresh handler and the effects of the mount start several
  asynchronous calls without awaiting them. Each call runs until it waits for a reply,
  and goes on, reply by reply, whenever the network answers; the replies of different
  calls come in any order. A call is therefore cut into segments, each ending with a
  request (the point where it waits).
\<close>

fun segments :: "('a \<Rightarrow> bool) \<Rightarrow> 'a list \<Rightarrow> 'a list list" where
  "segments req [] = []"
| "segments req (e # es) =
     (if req e then [e] # segments req es
      else (case segments req es of [] \<Rightarrow> [[e]] | g # gs \<Rightarrow> (e # g) # gs))"

definition first_segment :: "('a \<Rightarrow> bool) \<Rightarrow> 'a list \<Rightarrow> 'a list" where
  "first_segment req es = (case segments req es of [] \<Rightarrow> [] | g # gs \<Rightarrow> g)"

definition other_segments :: "('a \<Rightarrow> bool) \<Rightarrow> 'a list \<Rightarrow> 'a list list" where
  "other_segments req es = (case segments req es of [] \<Rightarrow> [] | g # gs \<Rightarrow> gs)"

text \<open>
  What a call does at once (\<open>now\<close>: synchronously, when it is made), what it does in a
  microtask right after the synchronous code that made it (\<open>soon\<close>), and what it does
  later, one segment for each reply it receives.
\<close>

record 'a call =
  now :: "'a list"
  soon :: "'a list"
  later :: "'a list list"

text \<open>A call that reaches its first request synchronously.\<close>

definition direct :: "('a \<Rightarrow> bool) \<Rightarrow> 'a list \<Rightarrow> 'a call" where
  "direct req es = \<lparr>now = first_segment req es, soon = [], later = other_segments req es\<rparr>"

text \<open>
  A call that, after its first \<open>n\<close> actions, awaits something that is already settled:
  the rest of its first segment runs in a microtask.
\<close>

definition deferred :: "('a \<Rightarrow> bool) \<Rightarrow> nat \<Rightarrow> 'a list \<Rightarrow> 'a call" where
  "deferred req n es =
     \<lparr>now = take n (first_segment req es), soon = drop n (first_segment req es),
      later = other_segments req es\<rparr>"

text \<open>
  The replies: as long as a call waits, the schedule picks one of the waiting calls
  (the empty schedule picks the first), and that call runs its next segment. The first
  argument bounds the number of replies; \<open>complete\<close> passes the number of segments that
  wait, which is what is needed (lemma \<open>set_complete\<close>: every action is performed).
\<close>

fun run_tasks :: "nat \<Rightarrow> nat list \<Rightarrow> 'a list list list \<Rightarrow> 'a list" where
  "run_tasks 0 sched ts = []"
| "run_tasks (Suc n) sched ts =
     (let waiting = filter (\<lambda>t. t \<noteq> []) ts
      in if waiting = [] then []
         else (let k = (case sched of [] \<Rightarrow> 0 | j # js \<Rightarrow> j mod length waiting);
                   t = waiting ! k
               in hd t @ run_tasks n (tl sched) (waiting[k := tl t])))"

text \<open>The actions of calls started together, in an order in which they can happen.\<close>

definition complete :: "nat list \<Rightarrow> 'a call list \<Rightarrow> 'a list" where
  "complete sched cs =
     concat (map now cs) @ concat (map soon cs)
       @ run_tasks (sum_list (map (\<lambda>c. length (later c)) cs)) sched (map later cs)"

subsection \<open>The mounted component: handlers, effects and timers\<close>

text \<open>
  An interval of the browser: its handle, its delay in milliseconds, and the state cells
  its callback closes over (those of the render whose effect created it). The callback of
  the only \<^verbatim>\<open>setInterval\<close> of the component is
  \<^verbatim>\<open>fetchReport(true); fetchBalance(); fetchConnectedCallsChart()\<close>.
\<close>

record ('r, 'n) interval =
  handle :: nat
  delay :: nat
  closure :: "('r, 'n) dashboard"

text \<open>
  \<open>cleanup\<close> is what the last run of the auto-refresh effect returned: \<open>Some h\<close> for
  \<^verbatim>\<open>() => clearInterval(h)\<close>, \<open>None\<close> when it returned nothing.
\<close>

record ('r, 'n) component =
  cells :: "('r, 'n) dashboard"
  intervals :: "('r, 'n) interval list"
  next_handle :: nat
  cleanup :: "nat option"

text \<open>Who made a call: a click or an input, a \<^verbatim>\<open>useEffect\<close>, or an interval.\<close>

datatype origin = ByUser | ByEffect | ByTimer

type_synonym ('r, 'n) log = "(origin \<times> ('r, 'n) effect) list"

definition perform_all ::
  "('r, 'n) log \<Rightarrow> ('r, 'n) component \<times> ('r, 'n) log \<Rightarrow> ('r, 'n) component \<times> ('r, 'n) log" where
  "perform_all es cl =
     (case cl of (c, lg) \<Rightarrow> (c\<lparr>cells := apply_effects (cells c) (map snd es)\<rparr>, lg @ es))"

definition perform ::
  "origin \<Rightarrow> ('r, 'n) effect list \<Rightarrow> ('r, 'n) component \<times> ('r, 'n) log
     \<Rightarrow> ('r, 'n) component \<times> ('r, 'n) log" where
  "perform og es cl =
     (case cl of (c, lg) \<Rightarrow> (c\<lparr>cells := apply_effects (cells c) es\<rparr>, lg @ map (Pair og) es))"

definition is_request :: "origin \<times> ('r, 'n) effect \<Rightarrow> bool" where
  "is_request x = (case snd x of Get url ps \<Rightarrow> True | _ \<Rightarrow> False)"

text \<open>\<^verbatim>\<open>fetchBalance()\<close> and the chart fetches send their request at once.\<close>

definition plain_call :: "origin \<Rightarrow> ('r, 'n) effect list \<Rightarrow> (origin \<times> ('r, 'n) effect) call" where
  "plain_call og es = direct is_request (map (Pair og) es)"

text \<open>
  \<^verbatim>\<open>fetchReport\<close> awaits \<^verbatim>\<open>getDateRange()\<close> before it sends its request. With a server
  date in its closure nothing is under way at that await: only \<^verbatim>\<open>setLoading(true)\<close>
  has happened, and the request goes out in a microtask. Without one,
  \<^verbatim>\<open>getDateRange\<close> has called \<^verbatim>\<open>fetchServerDate\<close>, whose request is sent at once.
\<close>

definition report_call ::
  "origin \<Rightarrow> ('r, 'n::zero) world \<Rightarrow> bool \<Rightarrow> ('r, 'n) dashboard \<Rightarrow> (origin \<times> ('r, 'n) effect) call" where
  "report_call og w silent s =
     (let es = map (Pair og) (fst (fetchReport w silent s))
      in if serverDate s = [] then direct is_request es
         else deferred is_request (if silent then 0 else 1) es)"

datatype event =
    ClickTimeframe MainTimeframe
  | InputCustomStart string
  | InputCustomEnd string
  | ClickApply
  | ClickReset
  | ClickRefresh
  | SelectAsrTimeframe ASRTimeframe
  | ClickConnectedCallsTimeframe ConnectedCallsTimeframe
  | IntervalFires nat

definition clearInterval :: "nat \<Rightarrow> ('r, 'n) component \<Rightarrow> ('r, 'n) component" where
  "clearInterval h c = c\<lparr>intervals := filter (\<lambda>i. handle i \<noteq> h) (intervals c)\<rparr>"

text \<open>
  The auto-refresh effect, run because one of its dependencies changed: first the cleanup
  the previous run returned, then the body.
  \<^verbatim>\<open>
    useEffect(() => {
        if (timeframe !== "live") return;
        const id = setInterval(() => { ... }, 60000);
        return () => clearInterval(id);
    }, [timeframe, connectedCallsTimeframe]);
  \<close>
\<close>

definition auto_refresh_effect :: "('r, 'n) component \<Rightarrow> ('r, 'n) component" where
  "auto_refresh_effect c =
     (let c1 = (case cleanup c of None \<Rightarrow> c | Some h \<Rightarrow> clearInterval h c)
      in if timeframe (cells c1) \<noteq> Live then c1\<lparr>cleanup := None\<rparr>
         else c1\<lparr>intervals :=
                    intervals c1 @ [\<lparr>handle = next_handle c1, delay = 60000, closure = cells c1\<rparr>],
                  next_handle := next_handle c1 + 1,
                  cleanup := Some (next_handle c1)\<rparr>)"

text \<open>
  After a render, the effects whose dependencies differ from those of the previous render
  run, in the order of the source, each with the cells of the new render. An event
  changes at most one of the timeframe, the refresh key and the two chart timeframes, so
  at most one of the three fetching effects runs, and its call is alone.
\<close>

definition run_effects ::
  "('r, 'n::zero) world \<Rightarrow> ('r, 'n) dashboard \<Rightarrow> ('r, 'n) component \<times> ('r, 'n) log
     \<Rightarrow> ('r, 'n) component \<times> ('r, 'n) log" where
  "run_effects w old cl =
     (case cl of (c, lg) \<Rightarrow>
        (let s = cells c;
             tf = (timeframe s \<noteq> timeframe old);
             cc = (connectedCallsTimeframe s \<noteq> connectedCallsTimeframe old);
             c1 = (if tf \<or> cc then auto_refresh_effect c else c);
             r1 = (c1, lg);
             r2 = (if tf \<or> refreshKey s \<noteq> refreshKey old
                   then perform ByEffect (fst (fetchReport w True s)) r1 else r1);
             r3 = (if asrTimeframe s \<noteq> asrTimeframe old
                   then perform ByEffect (fetchASRChart s) r2 else r2)
         in if cc then perform ByEffect (fetchConnectedCallsChart s) r3 else r3))"

text \<open>
  The event handlers. The custom inputs and the Apply and Reset buttons are rendered only
  while the timeframe is custom, and Apply is disabled unless both dates are set; an
  event on a control that is absent or disabled does not occur.

  Refresh: \<^verbatim>\<open>await Promise.all([fetchReport(), fetchASRChart(),
  fetchConnectedCallsChart(), fetchBalance()]); setRefreshKey((k) => k + 1)\<close>. The four
  calls are started together, and the key is bumped when all have settled. The interval
  callback starts its three calls and awaits none.

  A step lasts until the calls it starts have settled: a reply that would arrive only
  after the next event is taken to arrive before it.
\<close>

definition handle_event ::
  "('r, 'n::zero) world \<Rightarrow> event \<Rightarrow> ('r, 'n) component \<Rightarrow> ('r, 'n) component \<times> ('r, 'n) log" where
  "handle_event w ev c =
     (let s = cells c in
      case ev of
        ClickTimeframe tf \<Rightarrow> (c\<lparr>cells := s\<lparr>timeframe := tf\<rparr>\<rparr>, [])
      | InputCustomStart v \<Rightarrow>
          (if timeframe s = Custom then c\<lparr>cells := s\<lparr>customStart := v\<rparr>\<rparr> else c, [])
      | InputCustomEnd v \<Rightarrow>
          (if timeframe s = Custom then c\<lparr>cells := s\<lparr>customEnd := v\<rparr>\<rparr> else c, [])
      | ClickApply \<Rightarrow>
          (if timeframe s = Custom \<and> customStart s \<noteq> [] \<and> customEnd s \<noteq> []
           then perform ByUser (fst (fetchReport w False s)) (c, [])
           else (c, []))
      | ClickReset \<Rightarrow>
          (if timeframe s = Custom then c\<lparr>cells := s\<lparr>customStart := [], customEnd := []\<rparr>\<rparr>
           else c, [])
      | ClickRefresh \<Rightarrow>
          perform ByUser [IncRefreshKey]
            (perform_all
              (complete (schedule w)
                [report_call ByUser w False s,
                 plain_call ByUser (fetchASRChart s),
                 plain_call ByUser (fetchConnectedCallsChart s),
                 plain_call ByUser (fetchBalance w)])
              (c, []))
      | SelectAsrTimeframe t \<Rightarrow> (c\<lparr>cells := s\<lparr>asrTimeframe := t\<rparr>\<rparr>, [])
      | ClickConnectedCallsTimeframe t \<Rightarrow> (c\<lparr>cells := s\<lparr>connectedCallsTimeframe := t\<rparr>\<rparr>, [])
      | IntervalFires h \<Rightarrow>
          (case find (\<lambda>i. handle i = h) (intervals c) of
             None \<Rightarrow> (c, [])
           | Some i \<Rightarrow>
               perform_all
                 (complete (schedule w)
                   [report_call ByTimer w True (closure i),
                    plain_call ByTimer (fetchBalance w),
                    plain_call ByTimer (fetchConnectedCallsChart (closure i))])
                 (c, [])))"

definition step ::
  "('r, 'n::zero) world \<Rightarrow> event \<Rightarrow> ('r, 'n) component \<Rightarrow> ('r, 'n) component \<times> ('r, 'n) log" where
  "step w ev c = run_effects w (cells c) (handle_event w ev c)"

text \<open>
  \<^verbatim>\<open>init\<close> awaits its five calls one after the other and so is one call; one that
  throws ends it.
\<close>

definition init :: "('r, 'n::zero) world \<Rightarrow> ('r, 'n) dashboard \<Rightarrow> ('r, 'n) effect list" where
  "init w s =
     (case fetchServerDate w of
        (es, Inl e) \<Rightarrow> es
      | (es, Inr d) \<Rightarrow>
          es @ fetchBalance w @ fst (fetchReport w True s) @ fetchASRChart s
            @ fetchConnectedCallsChart s)"

text \<open>
  Mounting: the first render has the initial cells, and every effect runs once with these
  cells, in the order of the source. The first effect starts \<^verbatim>\<open>init\<close>; the
  auto-refresh effect creates the interval; the other three effects start one call each.
\<close>

definition mount :: "('r, 'n::zero) world \<Rightarrow> ('r, 'n) component \<times> ('r, 'n) log" where
  "mount w =
     (let s = initial_dashboard;
          c0 = auto_refresh_effect \<lparr>cells = s, intervals = [], next_handle = 1, cleanup = None\<rparr>
      in perform_all
           (complete (schedule w)
             [plain_call ByEffect (init w s),
              report_call ByEffect w True s,
              plain_call ByEffect (fetchASRChart s),
              plain_call ByEffect (fetchConnectedCallsChart s)])
           (c0, []))"

text \<open>A session: the mount, then events, each met by the world of its moment.\<close>

fun run :: "(('r, 'n::zero) world \<times> event) list \<Rightarrow> ('r, 'n) component \<Rightarrow> ('r, 'n) component" where
  "run [] c = c"
| "run ((w, ev) # evs) c = run evs (fst (step w ev c))"

definition session :: "('r, 'n::zero) world \<Rightarrow> (('r, 'n) world \<times> event) list \<Rightarrow> ('r, 'n) component" where
  "session w0 evs = run evs (fst (mount w0))"

text \<open>A report request made by an effect or a timer, not by the user's click.\<close>

definition automatic_report_fetch :: "origin \<times> ('r, 'n) effect \<Rightarrow> bool" where
  "automatic_report_fetch x =
     (case x of
        (ByUser, e) \<Rightarrow> False
      | (og, Get url ps) \<Rightarrow> url = ''/report''
      | (og, e) \<Rightarrow> False)"


section \<open>The older dashboard (src/unnamed/part_003)\<close>

text \<open>
  The repository holds a second, older \<^verbatim>\<open>Dashboard\<close> component with its own copies of
  \<^verbatim>\<open>fetchServerDate\<close>, \<^verbatim>\<open>getDateRange\<close> and \<^verbatim>\<open>fetchReport\<close>. Its timeframe is
  \<^verbatim>\<open>"daily" | "yesterday" | "weekly" | "monthly" | "custom"\<close>, its server date starts as
  \<^verbatim>\<open>null\<close>, and it talks to \<^verbatim>\<open>http://localhost:8000\<close> directly. Its balance cell is
  written with \<^verbatim>\<open>res.data.current_balance\<close> as it comes: \<open>None\<close> is \<^verbatim>\<open>undefined\<close>.
\<close>

datatype OldTimeframe = Daily | OldYesterday | OldWeekly | OldMonthly | OldCustom

record ('r, 'n) old_dashboard =
  old_data :: "('r, 'n) report_data option"
  old_loading :: bool
  old_error :: "string option"
  old_timeframe :: OldTimeframe
  refreshTrigger :: nat
  old_customStart :: string
  old_customEnd :: string
  old_serverDate :: "string option"
  old_balance :: "'n option"

text \<open>The actions of its functions; \<open>IncRefreshTrigger\<close> is \<^verbatim>\<open>setRefreshTrigger((p) => p + 1)\<close>.\<close>

datatype ('r, 'n) old_effect =
    OldSetData "('r, 'n) report_data option"
  | OldSetLoading bool
  | OldSetError "string option"
  | OldSetServerDate string
  | OldSetBalance "'n option"
  | IncRefreshTrigger
  | OldGet string "(string \<times> string) list"
  | OldConsoleError string


text \<open>The fallback date is returned but not stored.\<close>

definition fetchServerDate_old :: "('r, 'n) world \<Rightarrow> ('r, 'n) old_effect list \<times> (exn + string)" where
  "fetchServerDate_old w =
     (case server_date_reply w of
        Inr sd \<Rightarrow> ([OldGet ''http://localhost:8000/server-date'' [], OldSetServerDate sd], Inr sd)
      | Inl e \<Rightarrow>
          ([OldGet ''http://localhost:8000/server-date'' [],
            OldConsoleError ''Error fetching server date:''],
           formatDate (Some (clock w))))"


definition range_for_old ::
  "timezone \<Rightarrow> ('r, 'n) old_dashboard \<Rightarrow> string \<Rightarrow> exn + string \<times> string" where
  "range_for_old z s today =
     (if old_timeframe s = Daily then Inr (today, today)
      else if old_timeframe s = OldYesterday then
        (case days_before z 1 today of
           Inl e \<Rightarrow> Inl e
         | Inr startDate \<Rightarrow>
             (case days_before z 1 today of
                Inl e \<Rightarrow> Inl e
              | Inr endDate \<Rightarrow> Inr (startDate, endDate)))
      else if old_timeframe s = OldWeekly then
        (case days_before z 7 today of
           Inl e \<Rightarrow> Inl e
         | Inr startDate \<Rightarrow> Inr (startDate, today))
      else if old_timeframe s = OldMonthly then
        (case days_before z 30 today of
           Inl e \<Rightarrow> Inl e
         | Inr startDate \<Rightarrow> Inr (startDate, today))
      else Inr (if old_customStart s \<noteq> [] then old_customStart s else today,
                if old_customEnd s \<noteq> [] then old_customEnd s else today))"

text \<open>\<^verbatim>\<open>serverDate || ...\<close>: \<^verbatim>\<open>null\<close> and the empty string are both falsy.\<close>

definition getDateRange_old ::
  "('r, 'n) world \<Rightarrow> ('r, 'n) old_dashboard \<Rightarrow> ('r, 'n) old_effect list \<times> (exn + string \<times> string)" where
  "getDateRange_old w s =
     (let (es, r) = (case old_serverDate s of
                       None \<Rightarrow> fetchServerDate_old w
                     | Some d \<Rightarrow> if d \<noteq> [] then ([], Inr d) else fetchServerDate_old w)
      in case r of
           Inl e \<Rightarrow> (es, Inl e)
         | Inr today \<Rightarrow> (es, range_for_old (zone w) s today))"

definition report_request_old :: "string \<Rightarrow> string \<Rightarrow> ('r, 'n) old_effect" where
  "report_request_old startDate endDate =
     OldGet ''http://localhost:8000/report''
       [(''campaign'', ''0006''), (''start_date'', startDate), (''end_date'', endDate)]"

definition error_message_old :: "exn \<Rightarrow> string" where
  "error_message_old e =
     (case e of
        ServerError (Some m) \<Rightarrow> if m \<noteq> [] then m else ''Failed to fetch data from backend.''
      | _ \<Rightarrow> ''Failed to fetch data from backend.'')"

text \<open>
  The older \<^verbatim>\<open>fetchReport\<close> starts with a guard the newer one does not have:
  \<^verbatim>\<open>if (timeframe === "custom" && (!customStart || !customEnd)) return;\<close>
  It reads \<^verbatim>\<open>res.data.balance\<close> without testing \<^verbatim>\<open>res.data\<close>: on a \<^verbatim>\<open>null\<close> body
  this throws after the data and the error have been set, and the handler runs.
\<close>

definition fetchReport_old ::
  "('r, 'n) world \<Rightarrow> bool \<Rightarrow> ('r, 'n) old_dashboard \<Rightarrow> ('r, 'n) old_effect list \<times> (exn + unit)" where
  "fetchReport_old w silent s =
     (if old_timeframe s = OldCustom \<and> (old_customStart s = [] \<or> old_customEnd s = [])
      then ([], Inr ())
      else
        (let l = (if \<not> silent then [OldSetLoading True] else []);
             f = (if \<not> silent then [OldSetLoading False] else []);
             (ds, r) = getDateRange_old w s
         in case r of
              Inl e \<Rightarrow>
                (l @ ds @ [OldConsoleError ''Error fetching data:'',
                           OldSetError (Some (error_message_old e))]
                   @ f, Inr ())
            | Inr (startDate, endDate) \<Rightarrow>
                (case report_reply w startDate endDate of
                   Inl e \<Rightarrow>
                     (l @ ds @ [report_request_old startDate endDate,
                        OldConsoleError ''Error fetching data:'',
                        OldSetError (Some (error_message_old e))]
                        @ f, Inr ())
                 | Inr d \<Rightarrow>
                     (l @ ds @ [report_request_old startDate endDate, OldSetData d, OldSetError None]
                        @ (case d of
                             None \<Rightarrow>
                               [OldConsoleError ''Error fetching data:'',
                                OldSetError (Some (error_message_old TypeError))]
                           | Some rd \<Rightarrow>
                               (case balance_field rd of
                                  None \<Rightarrow> []
                                | Some b \<Rightarrow> [OldSetBalance (Some b)]))
                        @ f, Inr ()))))"

text \<open>The correspondence of the two state records: \<^verbatim>\<open>"live"\<close> is the older \<^verbatim>\<open>"daily"\<close>.\<close>

definition old_timeframe_of :: "MainTimeframe \<Rightarrow> OldTimeframe" where
  "old_timeframe_of t =
     (case t of Live \<Rightarrow> Daily | Yesterday \<Rightarrow> OldYesterday | Weekly \<Rightarrow> OldWeekly
      | Monthly \<Rightarrow> OldMonthly | Custom \<Rightarrow> OldCustom)"

definition same_inputs :: "('r, 'n) dashboard \<Rightarrow> ('r, 'n) old_dashboard \<Rightarrow> bool" where
  "same_inputs s t \<longleftrightarrow>
     old_timeframe t = old_timeframe_of (timeframe s)
     \<and> old_customStart t = customStart s
     \<and> old_customEnd t = customEnd s
     \<and> (case old_serverDate t of None \<Rightarrow> serverDate s = [] | Some d \<Rightarrow> serverDate s = d)"


subsection \<open>The older component and its timer\<close>















section \<open>Notions used to state the results\<close>

text \<open>The cells after a run of \<^verbatim>\<open>fetchReport\<close> that started from the cells \<open>s\<close>.\<close>

definition after :: "('r, 'n::zero) world \<Rightarrow> bool \<Rightarrow> ('r, 'n) dashboard \<Rightarrow> ('r, 'n) dashboard" where
  "after w silent s = apply_effects s (fst (fetchReport w silent s))"

text \<open>The effects of resolving the reference date: requests, console output, the server date.\<close>

definition date_effect :: "('r, 'n) effect \<Rightarrow> bool" where
  "date_effect e =
     (case e of Get u p \<Rightarrow> True | ConsoleError m \<Rightarrow> True | SetServerDate d \<Rightarrow> True | _ \<Rightarrow> False)"

definition loading_on :: "bool \<Rightarrow> ('r, 'n) effect list" where
  "loading_on silent = (if \<not> silent then [SetLoading True] else [])"

definition loading_brackets :: "bool \<Rightarrow> ('r, 'n) effect list \<Rightarrow> ('r, 'n) effect list" where
  "loading_brackets silent es =
     loading_on silent @ es @ (if \<not> silent then [SetLoading False] else [])"

text \<open>
  Calendar dates as the program sees them: the string \<^verbatim>\<open>YYYY-MM-DD\<close> of the day with
  number \<open>d\<close> (days since 1970-01-01). A reference date is a day of the years 0001 to
  9999, so that the dates up to a month before it still have four-digit years.
\<close>

definition date_string :: "int \<Rightarrow> string" where
  "date_string d = iso_date (d * msPerDay)"

definition valid_day :: "int \<Rightarrow> bool" where
  "valid_day d \<longleftrightarrow> DayFromYear 1 \<le> d \<and> d < DayFromYear 10000"

text \<open>The time value that \<open>days_before z n\<close> formats, for the day number \<open>d\<close>.\<close>

definition shifted :: "timezone \<Rightarrow> int \<Rightarrow> int \<Rightarrow> int" where
  "shifted z n d = UTC z (LocalTime z (d * msPerDay) - n * msPerDay)"

text \<open>Every offset of the zone is less than a day (those in use lie between -12 and +14 hours).\<close>

definition sane_zone :: "timezone \<Rightarrow> bool" where
  "sane_zone z \<longleftrightarrow> (\<forall>t. \<bar>tza_utc z t\<bar> < msPerDay \<and> \<bar>tza_local z t\<bar> < msPerDay)"

text \<open>The order of two date strings: both are dates, and the first is not the later one.\<close>

definition date_le :: "string \<Rightarrow> string \<Rightarrow> bool" where
  "date_le a b =
     (case Date_parse a of
        None \<Rightarrow> False
      | Some x \<Rightarrow> (case Date_parse b of None \<Rightarrow> False | Some y \<Rightarrow> x \<le> y))"


definition pending :: "'a list list list \<Rightarrow> nat" where
  "pending ts = sum_list (map length ts)"


text \<open>Concrete worlds and cells for the runs below.\<close>

definition sample_report :: "(nat, int) report_data" where
  "sample_report = \<lparr>aggregates = 120, balance_field = Some 35\<rparr>"

definition good_world :: "(nat, int) world" where
  "good_world =
     \<lparr>zone = fixed_zone 0, clock = 1710028800000, server_date_reply = Inr ''2024-03-10'',
      report_reply = (\<lambda>a b. Inr (Some sample_report)), balance_reply = Inr (Some 35),
      schedule = []\<rparr>"

definition failing_world :: "(nat, int) world" where
  "failing_world = good_world\<lparr>report_reply := (\<lambda>a b. Inl (ServerError (Some ''database down'')))\<rparr>"

definition offline_world :: "(nat, int) world" where
  "offline_world =
     good_world\<lparr>server_date_reply := Inl NetworkError, report_reply := (\<lambda>a b. Inl NetworkError),
                balance_reply := Inl NetworkError\<rparr>"

definition shown_cells :: "(nat, int) dashboard" where
  "shown_cells =
     initial_dashboard\<lparr>data := Some \<lparr>aggregates = 7, balance_field = None\<rparr>,
                        serverDate := ''2024-03-10''\<rparr>"

definition new_york_world :: "(nat, int) world" where
  "new_york_world = good_world\<lparr>zone := new_york_2024\<rparr>"

text \<open>A browser at UTC-5 with no connection, at 2024-03-10T01:00:00Z: 20:00 on March 9 there.\<close>

definition evening_world :: "(nat, int) world" where
  "evening_world = offline_world\<lparr>zone := fixed_zone (- 5 * msPerHour), clock := 1710032400000\<rparr>"

definition apia_world :: "(nat, int) world" where
  "apia_world = good_world\<lparr>zone := apia_2011\<rparr>"

text \<open>The date in the browser's own time zone, as opposed to the UTC date.\<close>

definition local_date_string :: "timezone \<Rightarrow> int \<Rightarrow> string" where
  "local_date_string z t = date_string (Day (LocalTime z t))"

definition old_shown_cells :: "(nat, int) old_dashboard" where
  "old_shown_cells =
     \<lparr>old_data = None, old_loading = False, old_error = None, old_timeframe = OldWeekly,
      refreshTrigger = 0, old_customStart = [], old_customEnd = [],
      old_serverDate = Some ''2024-03-10'', old_balance = Some 0\<rparr>"




text \<open>The cells that only the user's clicks and inputs write.\<close>

definition inputs :: "('r, 'n) dashboard \<Rightarrow> MainTimeframe \<times> string \<times> string \<times> ASRTimeframe \<times> ConnectedCallsTimeframe" where
  "inputs s = (timeframe s, customStart s, customEnd s, asrTimeframe s, connectedCallsTimeframe s)"


text \<open>
  The component after mounting in \<open>good_world\<close>, a component without interval, and the
  session in which the user selects the custom range, types a start date only, selects
  yesterday, and is about to select the custom range again.
\<close>

definition mounted_cells :: "(nat, int) dashboard" where
  "mounted_cells =
     \<lparr>data = Some sample_report, loading = False, error = None, serverDate = ''2024-03-10'',
      balance = 35, timeframe = Live, customStart = [], customEnd = [], refreshKey = 0,
      asrTimeframe = ByDay, connectedCallsTimeframe = Min30\<rparr>"

definition mounted :: "(nat, int) component" where
  "mounted =
     \<lparr>cells = mounted_cells,
      intervals = [\<lparr>handle = 1, delay = 60000, closure = initial_dashboard\<rparr>],
      next_handle = 2, cleanup = Some 1\<rparr>"

definition idle :: "(nat, int) dashboard \<Rightarrow> (nat, int) component" where
  "idle s = \<lparr>cells = s, intervals = [], next_handle = 2, cleanup = None\<rparr>"

definition before_switch :: "(nat, int) component" where
  "before_switch =
     session good_world
       [(good_world, ClickTimeframe Custom), (good_world, InputCustomStart ''2024-03-01''),
        (good_world, ClickTimeframe Yesterday)]"

section \<open>Calendar arithmetic\<close>

lemma div_next:
  fixes x k :: int
  assumes "0 < k"
  shows "(x + 1) div k = (if (x + 1) mod k = 0 then x div k + 1 else x div k)"
proof (cases "x mod k = k - 1")
  case True
  have e: "x + 1 = k * (x div k + 1) + 0"
    using mult_div_mod_eq [of k x] True by (simp add: algebra_simps)
  have z: "(0::int) \<le> 0" "0 < k" using assms by simp_all
  have "(x + 1) div k = x div k + 1"
    using int_div_pos_eq [OF e z] .
  moreover have "(x + 1) mod k = 0"
    using int_mod_pos_eq [OF e z] .
  ultimately show ?thesis by simp
next
  case False
  have r: "0 \<le> x mod k + 1" "x mod k + 1 < k"
    using pos_mod_sign [OF assms, of x] pos_mod_bound [OF assms, of x] False by linarith+
  have p: "0 < x mod k + 1"
    using pos_mod_sign [OF assms, of x] by linarith
  have e: "x + 1 = k * (x div k) + (x mod k + 1)"
    using mult_div_mod_eq [of k x] by simp
  have "(x + 1) div k = x div k"
    using int_div_pos_eq [OF e r] .
  moreover have "(x + 1) mod k = x mod k + 1"
    using int_mod_pos_eq [OF e r] .
  ultimately show ?thesis using p by simp
qed

lemma leap_year_mods:
  fixes y :: int
  shows "((y - 1968) mod 4 = 0) = (y mod 4 = 0)"
    and "((y - 1900) mod 100 = 0) = (y mod 100 = 0)"
    and "((y - 1600) mod 400 = 0) = (y mod 400 = 0)"
proof -
  have "(y - 1968) mod 4 = (y + (- 492) * 4) mod 4" by simp
  also have "\<dots> = y mod 4" by (rule mod_mult_self1)
  finally show "((y - 1968) mod 4 = 0) = (y mod 4 = 0)" by simp
  have "(y - 1900) mod 100 = (y + (- 19) * 100) mod 100" by simp
  also have "\<dots> = y mod 100" by (rule mod_mult_self1)
  finally show "((y - 1900) mod 100 = 0) = (y mod 100 = 0)" by simp
  have "(y - 1600) mod 400 = (y + (- 4) * 400) mod 400" by simp
  also have "\<dots> = y mod 400" by (rule mod_mult_self1)
  finally show "((y - 1600) mod 400 = 0) = (y mod 400 = 0)" by simp
qed

lemma mod_100_4: "(y::int) mod 100 = 0 \<Longrightarrow> y mod 4 = 0"
proof -
  assume "y mod 100 = 0"
  then have "100 dvd y" by (simp add: dvd_eq_mod_eq_0)
  moreover have "(4::int) dvd 100" by simp
  ultimately have "4 dvd y" by (rule dvd_trans [rotated])
  then show ?thesis by (simp add: dvd_eq_mod_eq_0)
qed

lemma mod_400_100: "(y::int) mod 400 = 0 \<Longrightarrow> y mod 100 = 0"
proof -
  assume "y mod 400 = 0"
  then have "400 dvd y" by (simp add: dvd_eq_mod_eq_0)
  moreover have "(100::int) dvd 400" by simp
  ultimately have "100 dvd y" by (rule dvd_trans [rotated])
  then show ?thesis by (simp add: dvd_eq_mod_eq_0)
qed

lemma DayFromYear_step: "DayFromYear (y + 1) = DayFromYear y + DaysInYear y"
proof -
  have a: "(y + 1 - 1969) div 4 = (if y mod 4 = 0 then (y - 1969) div 4 + 1 else (y - 1969) div 4)"
    using div_next [of 4 "y - 1969"] leap_year_mods(1) [of y] by (simp add: algebra_simps)
  have b: "(y + 1 - 1901) div 100 = (if y mod 100 = 0 then (y - 1901) div 100 + 1 else (y - 1901) div 100)"
    using div_next [of 100 "y - 1901"] leap_year_mods(2) [of y] by (simp add: algebra_simps)
  have c: "(y + 1 - 1601) div 400 = (if y mod 400 = 0 then (y - 1601) div 400 + 1 else (y - 1601) div 400)"
    using div_next [of 400 "y - 1601"] leap_year_mods(3) [of y] by (simp add: algebra_simps)
  show ?thesis
    unfolding DayFromYear_def a b c DaysInYear_def leap_year_def
    using mod_100_4 [of y] mod_400_100 [of y] by auto
qed

lemma DayFromYear_parts:
  "\<exists>A B C. DayFromYear y = 365 * y - 719050 + A - B + C
     \<and> y - 1972 \<le> 4 * A \<and> 4 * A \<le> y - 1969
     \<and> y - 2000 \<le> 100 * B \<and> 100 * B \<le> y - 1901
     \<and> y - 2000 \<le> 400 * C \<and> 400 * C \<le> y - 1601"
proof -
  define A where "A = (y - 1969) div 4"
  define B where "B = (y - 1901) div 100"
  define C where "C = (y - 1601) div 400"
  have "DayFromYear y = 365 * y - 719050 + A - B + C"
    by (simp add: DayFromYear_def A_def B_def C_def)
  moreover have "y - 1972 \<le> 4 * A" "4 * A \<le> y - 1969"
    using pos_mod_bound [of 4 "y - 1969"] pos_mod_sign [of 4 "y - 1969"]
      mult_div_mod_eq [of 4 "y - 1969"] unfolding A_def by linarith+
  moreover have "y - 2000 \<le> 100 * B" "100 * B \<le> y - 1901"
    using pos_mod_bound [of 100 "y - 1901"] pos_mod_sign [of 100 "y - 1901"]
      mult_div_mod_eq [of 100 "y - 1901"] unfolding B_def by linarith+
  moreover have "y - 2000 \<le> 400 * C" "400 * C \<le> y - 1601"
    using pos_mod_bound [of 400 "y - 1601"] pos_mod_sign [of 400 "y - 1601"]
      mult_div_mod_eq [of 400 "y - 1601"] unfolding C_def by linarith+
  ultimately show ?thesis by blast
qed

lemma DayFromYear_lower: "146097 * y - 287811596 \<le> 400 * DayFromYear y"
proof -
  from DayFromYear_parts [of y] obtain A B C where
    "DayFromYear y = 365 * y - 719050 + A - B + C"
    "y - 1972 \<le> 4 * A" "100 * B \<le> y - 1901" "y - 2000 \<le> 400 * C" by blast
  then show ?thesis by linarith
qed

lemma DayFromYear_upper: "400 * DayFromYear y \<le> 146097 * y - 287810501"
proof -
  from DayFromYear_parts [of y] obtain A B C where
    "DayFromYear y = 365 * y - 719050 + A - B + C"
    "4 * A \<le> y - 1969" "y - 2000 \<le> 100 * B" "400 * C \<le> y - 1601" by blast
  then show ?thesis by linarith
qed

lemma YearFromDay_bounds:
  "DayFromYear (YearFromDay d) \<le> d \<and> d < DayFromYear (YearFromDay d + 1)"
proof -
  define y where "y = 1970 + (400 * d) div 146097"
  define q where "q = (400 * d) div 146097"
  have q: "146097 * q \<le> 400 * d" "400 * d < 146097 * q + 146097"
    using pos_mod_bound [of 146097 "400 * d"] pos_mod_sign [of 146097 "400 * d"]
      mult_div_mod_eq [of 146097 "400 * d"] unfolding q_def by linarith+
  have y: "y = 1970 + q" by (simp add: y_def q_def)
  define z where "z = y - 1"
  define v where "v = y + 2"
  have below: "DayFromYear z \<le> d"
    using DayFromYear_upper [of z] q y z_def by linarith
  have above: "d < DayFromYear v"
    using DayFromYear_lower [of v] q y v_def by linarith
  have eq: "YearFromDay d =
      (if DayFromYear (y + 1) \<le> d then y + 1 else if DayFromYear y \<le> d then y else y - 1)"
    by (simp add: YearFromDay_def y_def Let_def)
  have v: "y + 1 + 1 = v" "y - 1 + 1 = y" by (simp_all add: v_def)
  show ?thesis
  proof (cases "DayFromYear (y + 1) \<le> d")
    case True
    then show ?thesis using above by (simp add: eq v)
  next
    case False
    then show ?thesis using below by (simp add: eq v z_def)
  qed
qed

lemma DayFromYear_mono_aux: "0 \<le> k \<Longrightarrow> DayFromYear y + 365 * k \<le> DayFromYear (y + k)"
proof (induction k rule: int_ge_induct)
  case base
  then show ?case by simp
next
  case (step i)
  have "DayFromYear (y + (i + 1)) = DayFromYear (y + i) + DaysInYear (y + i)"
    using DayFromYear_step [of "y + i"] by (simp add: add.assoc)
  with step show ?case by (simp add: DaysInYear_def)
qed

lemma DayFromYear_mono: "y \<le> y' \<Longrightarrow> DayFromYear y \<le> DayFromYear y'"
  using DayFromYear_mono_aux [of "y' - y" y] by simp

lemma YearFromDay_unique:
  assumes "DayFromYear y \<le> d" and "d < DayFromYear (y + 1)"
  shows "YearFromDay d = y"
proof (rule ccontr)
  assume ne: "YearFromDay d \<noteq> y"
  let ?Y = "YearFromDay d"
  from YearFromDay_bounds [of d] have b: "DayFromYear ?Y \<le> d" "d < DayFromYear (?Y + 1)" by auto
  from ne consider "?Y + 1 \<le> y" | "y + 1 \<le> ?Y" by linarith
  then show False
  proof cases
    case 1
    from DayFromYear_mono [OF 1] b assms show False by linarith
  next
    case 2
    from DayFromYear_mono [OF 2] b assms show False by linarith
  qed
qed

lemma month_of_yday_range: "0 \<le> month_of_yday l d \<and> month_of_yday l d \<le> 11"
  by (simp add: month_of_yday_def)

lemma MakeDay_inverse:
  "MakeDay (YearFromTime t) (MonthFromTime t) k = Day t - DateFromTime t + k"
proof -
  let ?m = "MonthFromTime t"
  have m: "0 \<le> ?m" "?m \<le> 11"
    using month_of_yday_range [of "InLeapYear t" "DayWithinYear t"] by (simp_all add: MonthFromTime_def)
  then have "?m div 12 = 0" "?m mod 12 = ?m" by simp_all
  then show ?thesis
    by (simp add: MakeDay_def DateFromTime_def DayWithinYear_def InLeapYear_def)
qed


lemma Day_msPerDay [simp]: "Day (d * msPerDay) = d"
  by (simp add: Day_def msPerDay_def)

lemma digit_val_digit_char: "digit_val (digit_char n) = Some (n mod 10)"
proof -
  define k where "k = n mod 10"
  have "k < 10" by (simp add: k_def)
  then have "k = 0 \<or> k = 1 \<or> k = 2 \<or> k = 3 \<or> k = 4 \<or> k = 5 \<or> k = 6 \<or> k = 7 \<or> k = 8 \<or> k = 9"
    by arith
  then have "digit_val (''0123456789'' ! k) = Some k"
    by (elim disjE) (simp_all add: digit_val_def)
  then show ?thesis by (simp add: digit_char_def k_def)
qed

lemma digit_char_in: "digit_char n \<in> set ''0123456789''"
  unfolding digit_char_def by (rule nth_mem) simp

lemma length_pad [simp]: "length (pad w n) = w"
  by (induction w arbitrary: n) simp_all

lemma set_pad: "set (pad w n) \<subseteq> set ''0123456789''"
proof (induction w arbitrary: n)
  case 0
  then show ?case by simp
next
  case (Suc w)
  have "set (pad (Suc w) n) = set (pad w (n div 10)) \<union> {digit_char n}" by simp
  with Suc [of "n div 10"] digit_char_in [of n] show ?case by blast
qed

lemma read_digits_snoc:
  "read_digits acc (cs @ [c]) =
     (case read_digits acc cs of
        None \<Rightarrow> None
      | Some a \<Rightarrow> (case digit_val c of None \<Rightarrow> None | Some v \<Rightarrow> Some (10 * a + v)))"
  by (induction cs arbitrary: acc) (simp_all split: option.splits)

lemma read_digits_pad:
  "n < 10 ^ w \<Longrightarrow> read_digits 0 (pad w n) = Some n"
proof (induction w arbitrary: n)
  case 0
  then show ?case by simp
next
  case (Suc w)
  from Suc.prems have "n div 10 < 10 ^ w"
    by (simp add: less_mult_imp_div_less mult.commute)
  from Suc.IH [OF this] show ?case
    by (simp add: read_digits_snoc digit_val_digit_char)
qed

lemma month_table:
  assumes "l = 0 \<or> l = 1" and "0 \<le> d" and "d < 365 + l"
  shows "month_start l (month_of_yday l d) \<le> d
    \<and> d < month_start l (month_of_yday l d + 1)"
  using assms by (auto simp: month_of_yday_def month_start_def)

lemma DayWithinYear_range:
  "0 \<le> DayWithinYear t \<and> DayWithinYear t < 365 + InLeapYear t"
  using YearFromDay_bounds [of "Day t"] DayFromYear_step [of "YearFromTime t"]
  by (simp add: DayWithinYear_def InLeapYear_def YearFromTime_def DaysInYear_def split: if_splits)

lemma DateFromTime_range:
  "1 \<le> DateFromTime t \<and> DateFromTime t \<le> DaysInMonth (YearFromTime t) (MonthFromTime t)"
proof -
  have l: "InLeapYear t = 0 \<or> InLeapYear t = 1" by (simp add: InLeapYear_def)
  from month_table [OF l] DayWithinYear_range [of t]
  have "month_start (InLeapYear t) (MonthFromTime t) \<le> DayWithinYear t"
    "DayWithinYear t < month_start (InLeapYear t) (MonthFromTime t + 1)"
    by (simp_all add: MonthFromTime_def)
  then show ?thesis
    unfolding DateFromTime_def DaysInMonth_def Let_def InLeapYear_def [symmetric]
    by linarith
qed

lemma DateFromTime_le_31: "DateFromTime t \<le> 31"
proof -
  have "DaysInMonth y m \<le> 31" for y m
    by (simp add: DaysInMonth_def month_start_def)
  with DateFromTime_range [of t] show ?thesis
    by (meson order_trans)
qed

lemma MonthFromTime_range: "0 \<le> MonthFromTime t \<and> MonthFromTime t \<le> 11"
  by (simp add: MonthFromTime_def month_of_yday_range)

lemma MakeDay_of_fields:
  "MakeDay (YearFromTime t) (MonthFromTime t) (DateFromTime t) = Day t"
  by (simp add: MakeDay_inverse)


lemma DayFromYear_0: "DayFromYear 0 = - 719528"
  by (simp add: DayFromYear_def)

lemma DayFromYear_10000: "DayFromYear 10000 = 2932897"
  by (simp add: DayFromYear_def)

lemma YearFromDay_four_digits:
  assumes "DayFromYear 0 \<le> d" and "d < DayFromYear 10000"
  shows "0 \<le> YearFromDay d \<and> YearFromDay d \<le> 9999"
proof -
  let ?Y = "YearFromDay d"
  from YearFromDay_bounds [of d] have b: "DayFromYear ?Y \<le> d" "d < DayFromYear (?Y + 1)" by auto
  have "0 \<le> ?Y"
  proof (rule ccontr)
    assume "\<not> 0 \<le> ?Y"
    then have "?Y + 1 \<le> 0" by simp
    from DayFromYear_mono [OF this] b assms show False by linarith
  qed
  moreover have "?Y \<le> 9999"
  proof (rule ccontr)
    assume "\<not> ?Y \<le> 9999"
    then have "10000 \<le> ?Y" by simp
    from DayFromYear_mono [OF this] b assms show False by linarith
  qed
  ultimately show ?thesis by simp
qed

lemma iso_date_Day: "iso_date t = date_string (Day t)"
  by (simp add: iso_date_def date_string_def YearFromTime_def MonthFromTime_def
      DateFromTime_def InLeapYear_def DayWithinYear_def)

lemma T_not_in_pad: "CHR ''T'' \<notin> set (pad w n)"
  using set_pad [of w n] by auto

lemma T_not_in_iso_date: "CHR ''T'' \<notin> set (iso_date t)"
  by (simp add: iso_date_def year_string_def T_not_in_pad del: pad.simps)

lemma formatDate_iso_date: "formatDate (Some t) = Inr (date_string (Day t))"
proof -
  have "takeWhile (\<lambda>c. c \<noteq> CHR ''T'') (iso_date t @ CHR ''T'' # r) = iso_date t" for r
    using T_not_in_iso_date [of t] by (auto simp: takeWhile_tail)
  then show ?thesis
    by (simp add: formatDate_def toISOString_def iso_date_Day)
qed

lemma Date_parse_fields:
  assumes "y < 10000" and "1 \<le> m" and "m \<le> 12" and "1 \<le> k"
    and "int k \<le> DaysInMonth (int y) (int m - 1)"
  shows "Date_parse (pad 4 y @ ''-'' @ pad 2 m @ ''-'' @ pad 2 k) =
    TimeClip (MakeDate (MakeDay (int y) (int m - 1) (int k)) 0)"
proof -
  let ?s = "pad 4 y @ ''-'' @ pad 2 m @ ''-'' @ pad 2 k"
  have k: "int k \<le> 31"
    using assms(5) by (simp add: DaysInMonth_def month_start_def split: if_splits)
  have len: "length ?s = 10" by (simp del: pad.simps)
  have c4: "?s ! 4 = CHR ''-''" by (simp add: nth_append del: pad.simps)
  have c7: "?s ! 7 = CHR ''-''" by (simp add: nth_append del: pad.simps)
  have t4: "take 4 ?s = pad 4 y" by (simp del: pad.simps)
  have t2: "take 2 (drop 5 ?s) = pad 2 m" by (simp del: pad.simps)
  have d8: "drop 8 ?s = pad 2 k" by (simp del: pad.simps)
  have ry: "read_digits 0 (pad 4 y) = Some y"
    using assms(1) by (intro read_digits_pad) simp
  have rm: "read_digits 0 (pad 2 m) = Some m"
    using assms(3) by (intro read_digits_pad) simp
  have rk: "read_digits 0 (pad 2 k) = Some k"
    using k by (intro read_digits_pad) simp
  show ?thesis
    unfolding Date_parse_def len c4 c7 t4 t2 d8 ry rm rk
    using assms by simp
qed

lemma Date_parse_date_string:
  assumes "DayFromYear 0 \<le> d" and "d < DayFromYear 10000"
  shows "Date_parse (date_string d) = Some (d * msPerDay)"
proof -
  let ?t = "d * msPerDay"
  let ?Y = "YearFromTime ?t" and ?M = "MonthFromTime ?t" and ?D = "DateFromTime ?t"
  have Y: "0 \<le> ?Y" "?Y \<le> 9999"
    using YearFromDay_four_digits [OF assms] by (simp_all add: YearFromTime_def)
  have M: "0 \<le> ?M" "?M \<le> 11" using MonthFromTime_range [of ?t] by simp_all
  have D: "1 \<le> ?D" "?D \<le> DaysInMonth ?Y ?M" using DateFromTime_range [of ?t] by simp_all
  have s: "date_string d = pad 4 (nat ?Y) @ ''-'' @ pad 2 (nat (?M + 1)) @ ''-'' @ pad 2 (nat ?D)"
    using Y by (simp add: date_string_def iso_date_def year_string_def del: pad.simps)
  have "Date_parse (date_string d) =
      TimeClip (MakeDate (MakeDay (int (nat ?Y)) (int (nat (?M + 1)) - 1) (int (nat ?D))) 0)"
    unfolding s using Y M D by (intro Date_parse_fields) simp_all
  also have "\<dots> = TimeClip (MakeDate (MakeDay ?Y ?M ?D) 0)"
    using Y M D by simp
  also have "\<dots> = TimeClip ?t"
    by (simp add: MakeDay_of_fields MakeDate_def)
  also have "\<dots> = Some ?t"
    using assms by (simp add: TimeClip_def DayFromYear_0 DayFromYear_10000 msPerDay_def)
  finally show ?thesis .
qed

lemma split_day: "Day t * msPerDay + TimeWithinDay t = t"
  by (simp add: Day_def TimeWithinDay_def msPerDay_def)

lemma setDate_shift:
  "setDate z (Some t) (map_option (\<lambda>k. k - n) (getDate z (Some t))) =
     TimeClip (UTC z (LocalTime z t - n * msPerDay))"
proof -
  let ?l = "LocalTime z t"
  have "MakeDate (MakeDay (YearFromTime ?l) (MonthFromTime ?l) (DateFromTime ?l - n))
      (TimeWithinDay ?l) = ?l - n * msPerDay"
    using split_day [of ?l] by (simp add: MakeDay_inverse MakeDate_def algebra_simps)
  then show ?thesis
    by (simp add: setDate_def getDate_def Let_def)
qed

lemma days_before_date_string:
  assumes "DayFromYear 0 \<le> d" and "d < DayFromYear 10000"
  shows "days_before z n (date_string d) =
    (if \<bar>shifted z n d\<bar> > 8640000000000000 then Inl RangeError
     else Inr (date_string (Day (shifted z n d))))"
proof -
  have "days_before z n (date_string d) = formatDate (TimeClip (shifted z n d))"
    by (simp add: days_before_def Date_parse_date_string [OF assms] setDate_shift shifted_def)
  also have "\<dots> = (if \<bar>shifted z n d\<bar> > 8640000000000000 then Inl RangeError
     else Inr (date_string (Day (shifted z n d))))"
    by (simp add: TimeClip_def formatDate_iso_date) (simp add: formatDate_def toISOString_def)
  finally show ?thesis .
qed

section \<open>fetchReport: failure, success and the loading flag\<close>

lemma formatDate_Some: "\<exists>x. formatDate (Some t) = Inr x"
  by (simp add: formatDate_def toISOString_def)

lemma fetchServerDate_date_effects: "list_all date_effect (fst (fetchServerDate w))"
  by (simp add: fetchServerDate_def date_effect_def split: sum.splits)

lemma getDateRange_date_effects: "list_all date_effect (fst (getDateRange w s))"
  using fetchServerDate_date_effects [of w]
  by (auto simp: getDateRange_def Let_def split: prod.splits sum.splits)

lemma apply_date_effects:
  "list_all date_effect es \<Longrightarrow>
     data (foldl apply_effect s es) = data s \<and> loading (foldl apply_effect s es) = loading s
     \<and> error (foldl apply_effect s es) = error s \<and> balance (foldl apply_effect s es) = balance s"
proof (induction es arbitrary: s)
  case Nil
  then show ?case by simp
next
  case (Cons e es)
  then show ?case by (cases e) (simp_all add: date_effect_def)
qed

lemma date_effect_not_loading: "list_all date_effect es \<Longrightarrow> SetLoading b \<notin> set es"
  by (induction es) (auto simp: date_effect_def)

lemma error_message_nonempty: "error_message e \<noteq> []"
  by (simp add: error_message_def split: exn.splits option.splits)

lemma fetchReport_returns: "snd (fetchReport w silent s) = Inr ()"
  by (simp add: fetchReport_def Let_def split: prod.splits sum.splits)

lemma fetchReport_try_range_throws:
  assumes "snd (getDateRange w s) = Inl e"
  shows "fetchReport_try w silent s = (loading_on silent @ fst (getDateRange w s), Inl e)"
  using assms by (cases "getDateRange w s") (simp add: fetchReport_try_def loading_on_def)

lemma fetchReport_try_request_throws:
  assumes "snd (getDateRange w s) = Inr (a, b)" and "report_reply w a b = Inl e"
  shows "fetchReport_try w silent s =
    (loading_on silent @ fst (getDateRange w s) @ [report_request a b], Inl e)"
  using assms by (cases "getDateRange w s") (simp add: fetchReport_try_def loading_on_def)

lemma fetchReport_try_succeeds:
  assumes "snd (getDateRange w s) = Inr (a, b)" and "report_reply w a b = Inr d"
  shows "fetchReport_try w silent s =
    (loading_on silent @ fst (getDateRange w s) @ [report_request a b, SetData d]
       @ balance_effects d @ [SetError None], Inr ())"
  using assms by (cases "getDateRange w s") (simp add: fetchReport_try_def loading_on_def)

lemma fetch_fails_iff:
  "fetch_fails w silent s \<longleftrightarrow>
     (\<exists>e. snd (getDateRange w s) = Inl e)
     \<or> (\<exists>a b e. snd (getDateRange w s) = Inr (a, b) \<and> report_reply w a b = Inl e)"
proof (cases "snd (getDateRange w s)")
  case (Inl e)
  then show ?thesis
    by (simp add: fetch_fails_def fetchReport_try_range_throws [OF Inl])
next
  case (Inr p)
  obtain a b where p: "p = (a, b)" by (cases p)
  show ?thesis
  proof (cases "report_reply w a b")
    case (Inl e)
    then show ?thesis
      using Inr p
      by (simp add: fetch_fails_def fetchReport_try_request_throws [OF Inr [unfolded p] Inl])
  next
    case r: (Inr d)
    then show ?thesis
      using Inr p
      by (simp add: fetch_fails_def fetchReport_try_succeeds [OF Inr [unfolded p] r])
  qed
qed

lemma fetchReport_failure_effects:
  assumes "fetch_fails w silent s"
  shows "\<exists>ds e. list_all date_effect ds \<and>
     fst (fetchReport w silent s) = loading_brackets silent (ds @ fetchReport_catch e)"
proof -
  from assms consider
    (range) e where "snd (getDateRange w s) = Inl e"
  | (request) a b e where "snd (getDateRange w s) = Inr (a, b)" "report_reply w a b = Inl e"
    unfolding fetch_fails_iff by blast
  then show ?thesis
  proof cases
    case range
    have "fst (fetchReport w silent s) =
        loading_brackets silent (fst (getDateRange w s) @ fetchReport_catch e)"
      by (simp add: fetchReport_def fetchReport_try_range_throws [OF range] loading_brackets_def)
    then show ?thesis
      using getDateRange_date_effects [of w s] by blast
  next
    case request
    have d: "list_all date_effect (fst (getDateRange w s) @ [report_request a b])"
      using getDateRange_date_effects [of w s] by (simp add: report_request_def date_effect_def)
    have "fst (fetchReport w silent s) =
        loading_brackets silent ((fst (getDateRange w s) @ [report_request a b]) @ fetchReport_catch e)"
      by (simp add: fetchReport_def fetchReport_try_request_throws [OF request]
          loading_brackets_def)
    with d show ?thesis by blast
  qed
qed

lemma fetchReport_success_effects:
  assumes "snd (getDateRange w s) = Inr (a, b)" and "report_reply w a b = Inr d"
  shows "fst (fetchReport w silent s) =
       loading_brackets silent (fst (getDateRange w s) @ [report_request a b, SetData d]
         @ balance_effects d @ [SetError None])"
  by (simp add: fetchReport_def fetchReport_try_succeeds [OF assms] loading_brackets_def)

lemma not_fetch_fails:
  assumes "\<not> fetch_fails w silent s"
  shows "\<exists>a b d. snd (getDateRange w s) = Inr (a, b) \<and> report_reply w a b = Inr d"
proof (cases "snd (getDateRange w s)")
  case (Inl e)
  with assms show ?thesis by (simp add: fetch_fails_iff)
next
  case (Inr p)
  obtain a b where p: "p = (a, b)" by (cases p)
  with assms Inr show ?thesis
    by (cases "report_reply w a b") (auto simp: fetch_fails_iff)
qed

lemma balance_effects_apply:
  "data (foldl apply_effect s (balance_effects d)) = data s
   \<and> error (foldl apply_effect s (balance_effects d)) = error s
   \<and> loading (foldl apply_effect s (balance_effects d)) = loading s"
  by (simp add: balance_effects_def split: option.splits)

lemma balance_effects_not_loading: "SetLoading b \<notin> set (balance_effects d)"
  by (simp add: balance_effects_def split: option.splits)

lemma good_world_range: "getDateRange good_world shown_cells = ([], Inr (''2024-03-10'', ''2024-03-10''))"
  by (simp add: getDateRange_def range_for_def shown_cells_def initial_dashboard_def)

lemma failing_world_range:
  "getDateRange failing_world shown_cells = ([], Inr (''2024-03-10'', ''2024-03-10''))"
  by (simp add: getDateRange_def range_for_def shown_cells_def initial_dashboard_def)

lemma failing_world_fails: "fetch_fails failing_world silent shown_cells"
  by (simp add: fetch_fails_iff failing_world_range) (simp add: failing_world_def)

lemma failing_world_run:
  "fst (fetchReport failing_world silent shown_cells) =
     loading_brackets silent
       [report_request ''2024-03-10'' ''2024-03-10'', ConsoleError ''fetchReport:'',
        SetError (Some ''database down'')]"
proof -
  have "report_reply failing_world ''2024-03-10'' ''2024-03-10'' = Inl (ServerError (Some ''database down''))"
    by (simp add: failing_world_def)
  then show ?thesis
    by (simp add: fetchReport_def fetchReport_try_request_throws failing_world_range
        loading_brackets_def fetchReport_catch_def error_message_def)
qed

text \<open>
  C4. When a report fetch fails (the date range cannot be computed, or the request is
  rejected by the transport or by the server), \<^verbatim>\<open>fetchReport\<close> leaves the stored report
  data as it was, stores an error string that is not empty, and returns normally: the
  exception does not leave the function.
\<close>

theorem fetchReport_failure_keeps_data:
  assumes "fetch_fails w silent s"
  shows "data (after w silent s) = data s
    \<and> (\<exists>m. error (after w silent s) = Some m \<and> m \<noteq> [])
    \<and> snd (fetchReport w silent s) = Inr ()"
proof -
  from fetchReport_failure_effects [OF assms] obtain ds e where
    ds: "list_all date_effect ds" and
    eq: "fst (fetchReport w silent s) = loading_brackets silent (ds @ fetchReport_catch e)"
    by blast
  show ?thesis
    using apply_date_effects [OF ds] error_message_nonempty [of e]
    by (simp add: after_def apply_effects_def eq loading_brackets_def loading_on_def
        fetchReport_catch_def fetchReport_returns)
qed

theorem fetchReport_failure_keeps_data_witness:
  "fetch_fails failing_world False shown_cells
   \<and> data (after failing_world False shown_cells) = Some \<lparr>aggregates = 7, balance_field = None\<rparr>
   \<and> error (after failing_world False shown_cells) = Some ''database down''
   \<and> snd (fetchReport failing_world False shown_cells) = Inr ()"
proof -
  have "error (after failing_world False shown_cells) = Some ''database down''"
    by (simp add: after_def apply_effects_def failing_world_run loading_brackets_def
        loading_on_def report_request_def)
  moreover have "data shown_cells = Some \<lparr>aggregates = 7, balance_field = None\<rparr>"
    by (simp add: shown_cells_def)
  ultimately show ?thesis
    using fetchReport_failure_keeps_data [OF failing_world_fails [of False]]
      failing_world_fails [of False]
    by simp
qed

text \<open>
  C5. When a report fetch succeeds, that is, the date range is computed and the request
  is answered with the body \<open>d\<close>, \<^verbatim>\<open>fetchReport\<close> stores \<open>d\<close> as the report data, whatever
  was stored before, and sets the error to \<^verbatim>\<open>null\<close>. The starting cells are arbitrary, so
  this covers a success after a failure: the error left by the failure is removed.
\<close>

theorem fetchReport_success_replaces_data:
  assumes "snd (getDateRange w s) = Inr (a, b)" and "report_reply w a b = Inr d"
  shows "data (after w silent s) = d \<and> error (after w silent s) = None"
  using balance_effects_apply [of _ d]
  by (simp add: after_def apply_effects_def fetchReport_success_effects [OF assms]
      loading_brackets_def loading_on_def report_request_def)

text \<open>A failed fetch, then a successful one: the data is replaced and the error is gone.\<close>

theorem fetchReport_success_replaces_data_witness:
  "error (after failing_world True shown_cells) = Some ''database down''
   \<and> data (after good_world True (after failing_world True shown_cells)) = Some sample_report
   \<and> error (after good_world True (after failing_world True shown_cells)) = None"
proof -
  let ?s = "after failing_world True shown_cells"
  have s: "?s = shown_cells\<lparr>error := Some ''database down''\<rparr>"
    by (simp add: after_def apply_effects_def failing_world_run loading_brackets_def
        loading_on_def report_request_def)
  have "snd (getDateRange good_world (shown_cells\<lparr>error := Some ''database down''\<rparr>))
      = Inr (''2024-03-10'', ''2024-03-10'')"
    by (simp add: getDateRange_def range_for_def shown_cells_def initial_dashboard_def)
  then have r: "snd (getDateRange good_world ?s) = Inr (''2024-03-10'', ''2024-03-10'')"
    by (simp only: s)
  have d: "report_reply good_world ''2024-03-10'' ''2024-03-10'' = Inr (Some sample_report)"
    by (simp add: good_world_def)
  show ?thesis
    using fetchReport_success_replaces_data [OF r d, of True] by (simp add: s)
qed

text \<open>
  C7. A silent \<^verbatim>\<open>fetchReport\<close> never calls \<^verbatim>\<open>setLoading\<close>, whether it succeeds or fails,
  and the loading flag is what it was. A fetch that is not silent calls
  \<^verbatim>\<open>setLoading(true)\<close> first, before any request, and \<^verbatim>\<open>setLoading(false)\<close> last, and
  nowhere in between; the flag is off when it ends.
\<close>

theorem fetchReport_silent_keeps_loading:
  "(\<forall>b. SetLoading b \<notin> set (fst (fetchReport w True s)))
   \<and> loading (after w True s) = loading s
   \<and> (\<exists>mid. fst (fetchReport w False s) = SetLoading True # mid @ [SetLoading False]
         \<and> (\<forall>b. SetLoading b \<notin> set mid))
   \<and> loading (after w False s) = False"
proof -
  have *: "\<exists>mid. fst (fetchReport w silent s) = loading_brackets silent mid
     \<and> (\<forall>b. SetLoading b \<notin> set mid)
     \<and> loading (foldl apply_effect s' mid) = loading s'" for silent s'
  proof (cases "fetch_fails w silent s")
    case True
    from fetchReport_failure_effects [OF True] obtain ds e where
      ds: "list_all date_effect ds" and
      eq: "fst (fetchReport w silent s) = loading_brackets silent (ds @ fetchReport_catch e)"
      by blast
    show ?thesis
      using eq date_effect_not_loading [OF ds] apply_date_effects [OF ds]
      by (auto simp: fetchReport_catch_def)
  next
    case False
    from not_fetch_fails [OF False] obtain a b d where
      ok: "snd (getDateRange w s) = Inr (a, b)" "report_reply w a b = Inr d" by blast
    let ?mid = "fst (getDateRange w s) @ [report_request a b, SetData d]
         @ balance_effects d @ [SetError None]"
    have "\<forall>b. SetLoading b \<notin> set ?mid"
      using date_effect_not_loading [OF getDateRange_date_effects [of w s]]
        balance_effects_not_loading [of _ d]
      by (simp add: report_request_def)
    moreover have "loading (foldl apply_effect s' ?mid) = loading s'"
      using apply_date_effects [OF getDateRange_date_effects [of w s]]
        balance_effects_apply [of _ d]
      by (simp add: report_request_def)
    ultimately show ?thesis
      using fetchReport_success_effects [OF ok] by blast
  qed
  from * [of True s] * [of False "s\<lparr>loading := True\<rparr>"]
  show ?thesis
    by (auto simp: loading_brackets_def loading_on_def after_def apply_effects_def)
qed

theorem fetchReport_silent_keeps_loading_witness:
  "(\<forall>b. SetLoading b \<notin> set (fst (fetchReport failing_world True (shown_cells\<lparr>loading := True\<rparr>))))
   \<and> loading (after failing_world True (shown_cells\<lparr>loading := True\<rparr>)) = True
   \<and> loading (after failing_world False (shown_cells\<lparr>loading := True\<rparr>)) = False"
  using fetchReport_silent_keeps_loading [of failing_world "shown_cells\<lparr>loading := True\<rparr>"]
  by simp

section \<open>getDateRange\<close>

subsection \<open>Days before a reference date\<close>

lemma Day_lower: "a * msPerDay \<le> t \<Longrightarrow> a \<le> Day t"
  using split_day [of t] pos_mod_bound [of msPerDay t]
  by (simp add: TimeWithinDay_def msPerDay_def)

lemma Day_upper: "t < b * msPerDay \<Longrightarrow> Day t < b"
  using split_day [of t] pos_mod_sign [of msPerDay t]
  by (simp add: TimeWithinDay_def msPerDay_def)

lemma shifted_bounds:
  assumes "sane_zone z"
  shows "(d - n) * msPerDay - 2 * msPerDay < shifted z n d
    \<and> shifted z n d < (d - n) * msPerDay + 2 * msPerDay"
proof -
  let ?o1 = "tza_utc z (d * msPerDay)"
  let ?o2 = "tza_local z (d * msPerDay + ?o1 - n * msPerDay)"
  have s: "shifted z n d = (d - n) * msPerDay + ?o1 - ?o2"
    by (simp add: shifted_def UTC_def LocalTime_def algebra_simps)
  have *: "\<bar>a\<bar> < k \<Longrightarrow> \<bar>b\<bar> < k \<Longrightarrow> x - 2 * k < x + a - b \<and> x + a - b < x + 2 * k"
    for a b k x :: int by arith
  from assms have "\<bar>?o1\<bar> < msPerDay" "\<bar>?o2\<bar> < msPerDay"
    by (simp_all add: sane_zone_def)
  from * [OF this] show ?thesis
    unfolding s .
qed

lemma Day_shifted:
  assumes "sane_zone z"
  shows "d - n - 2 \<le> Day (shifted z n d) \<and> Day (shifted z n d) \<le> d - n + 1"
proof -
  from shifted_bounds [OF assms, of d n] have
    a: "(d - n - 2) * msPerDay \<le> shifted z n d" and b: "shifted z n d < (d - n + 2) * msPerDay"
    by (simp_all add: algebra_simps)
  from Day_lower [OF a] Day_upper [OF b] show ?thesis by simp
qed

lemma DayFromYear_1: "DayFromYear 1 = - 719162"
  by (simp add: DayFromYear_def)

lemma shifted_in_range:
  assumes "sane_zone z" and "valid_day d" and "0 \<le> n" and "n \<le> 30"
  shows "\<bar>shifted z n d\<bar> \<le> 8640000000000000"
proof -
  define e where "e = d - n"
  from assms(2-4) have e: "- 719192 \<le> e" "e < 2932897"
    by (simp_all add: valid_day_def DayFromYear_1 DayFromYear_10000 e_def)
  from shifted_bounds [OF assms(1), of d n]
  have "e * 86400000 - 172800000 < shifted z n d" "shifted z n d < e * 86400000 + 172800000"
    by (simp_all add: msPerDay_def e_def)
  with e show ?thesis by linarith
qed

lemma valid_day_parses:
  assumes "valid_day d"
  shows "DayFromYear 0 \<le> d \<and> d < DayFromYear 10000"
  using assms by (simp add: valid_day_def DayFromYear_0 DayFromYear_1)

lemma days_before_returns:
  assumes "sane_zone z" and "valid_day d" and "0 \<le> n" and "n \<le> 30"
  shows "days_before z n (date_string d) = Inr (date_string (Day (shifted z n d)))"
  using valid_day_parses [OF assms(2)] shifted_in_range [OF assms]
  by (simp add: days_before_date_string)

lemma date_string_nonempty: "date_string d \<noteq> []"
  by (simp add: date_string_def iso_date_def)

lemma getDateRange_stored:
  assumes "serverDate s \<noteq> []"
  shows "getDateRange w s = ([], range_for (zone w) s (serverDate s))"
  using assms by (simp add: getDateRange_def)

lemma days_before_exact:
  assumes "valid_day d" and "0 \<le> n" and "n \<le> 30"
    and "tza_local z (LocalTime z (d * msPerDay) - n * msPerDay) \<le> tza_utc z (d * msPerDay)"
    and "tza_utc z (d * msPerDay) <
      tza_local z (LocalTime z (d * msPerDay) - n * msPerDay) + msPerDay"
  shows "days_before z n (date_string d) = Inr (date_string (d - n))"
proof -
  let ?o1 = "tza_utc z (d * msPerDay)"
  let ?o2 = "tza_local z (LocalTime z (d * msPerDay) - n * msPerDay)"
  have s: "shifted z n d = (d - n) * msPerDay + (?o1 - ?o2)"
    by (simp add: shifted_def UTC_def LocalTime_def algebra_simps)
  have a: "(d - n) * msPerDay \<le> shifted z n d"
    unfolding s using assms(4) by simp
  have b: "shifted z n d < (d - n + 1) * msPerDay"
    unfolding s using assms(5) by (simp add: algebra_simps)
  have day: "Day (shifted z n d) = d - n"
    using Day_lower [OF a] Day_upper [OF b] by simp
  define e where "e = d - n"
  from assms(1-3) have e: "- 719192 \<le> e" "e < 2932897"
    by (simp_all add: valid_day_def DayFromYear_1 DayFromYear_10000 e_def)
  have "e * 86400000 \<le> shifted z n d" "shifted z n d < e * 86400000 + 86400000"
    using a b by (simp_all add: msPerDay_def e_def algebra_simps)
  with e have "\<bar>shifted z n d\<bar> \<le> 8640000000000000" by linarith
  then show ?thesis
    using valid_day_parses [OF assms(1)] by (simp add: days_before_date_string day)
qed

lemma days_before_fixed_zone:
  assumes "valid_day d" and "0 \<le> n" and "n \<le> 30"
  shows "days_before (fixed_zone c) n (date_string d) = Inr (date_string (d - n))"
  using assms by (intro days_before_exact) (simp_all add: fixed_zone_def msPerDay_def)

text \<open>The table of the specification holds in every zone whose offset never changes.\<close>

lemma range_for_fixed_zone:
  assumes "valid_day d"
  shows "range_for (fixed_zone c) s (date_string d) =
    (case timeframe s of
       Live \<Rightarrow> Inr (date_string d, date_string d)
     | Yesterday \<Rightarrow> Inr (date_string (d - 1), date_string (d - 1))
     | Weekly \<Rightarrow> Inr (date_string (d - 7), date_string d)
     | Monthly \<Rightarrow> Inr (date_string (d - 30), date_string d)
     | Custom \<Rightarrow> Inr (if customStart s \<noteq> [] then customStart s else date_string d,
                       if customEnd s \<noteq> [] then customEnd s else date_string d))"
  by (cases "timeframe s")
    (simp_all add: range_for_def days_before_fixed_zone [OF assms])

lemma date_le_date_string:
  assumes "DayFromYear 0 \<le> x" and "x < DayFromYear 10000"
    and "DayFromYear 0 \<le> y" and "y < DayFromYear 10000"
  shows "date_le (date_string x) (date_string y) \<longleftrightarrow> x \<le> y"
  by (simp add: date_le_def Date_parse_date_string [OF assms(1,2)]
      Date_parse_date_string [OF assms(3,4)] msPerDay_def)

lemma date_le_shifted:
  assumes "valid_day d" and "sane_zone z" and "1 \<le> n" and "n \<le> 30"
  shows "date_le (date_string (Day (shifted z n d))) (date_string d)
    \<and> date_le (date_string (Day (shifted z n d))) (date_string (Day (shifted z n d)))"
proof -
  let ?x = "Day (shifted z n d)"
  from Day_shifted [OF assms(2), of d n] assms(3,4) have x: "d - 32 \<le> ?x" "?x \<le> d" by simp_all
  from assms(1) have d: "- 719162 \<le> d" "d < 2932897"
    by (simp_all add: valid_day_def DayFromYear_1 DayFromYear_10000)
  have xr: "DayFromYear 0 \<le> ?x" "?x < DayFromYear 10000"
    using x d by (simp_all add: DayFromYear_0 DayFromYear_10000)
  have dr: "DayFromYear 0 \<le> d" "d < DayFromYear 10000"
    using d by (simp_all add: DayFromYear_0 DayFromYear_10000)
  show ?thesis
    using x by (simp add: date_le_date_string [OF xr dr] date_le_date_string [OF xr xr])
qed

lemma date_string_19792: "date_string 19792 = ''2024-03-10''"
  by code_simp

lemma valid_day_19792: "valid_day 19792"
  by (simp add: valid_day_def DayFromYear_1 DayFromYear_10000)

lemma sane_good_world: "sane_zone (zone good_world)"
  by (simp add: sane_zone_def good_world_def fixed_zone_def msPerDay_def)

lemma shown_cells_date: "serverDate (shown_cells\<lparr>timeframe := tf\<rparr>) = date_string 19792"
  by (simp add: shown_cells_def date_string_19792)

subsection \<open>The derivation table\<close>

text \<open>
  The two examples of the specification, in a UTC browser and in New York: there is no
  transition between the server date 2024-03-10 and the days before it that would show.
\<close>

lemma examples_of_the_table:
  "days_before (fixed_zone 0) 1 ''2024-03-10'' = Inr ''2024-03-09''"
  "days_before (fixed_zone 0) 7 ''2024-03-10'' = Inr ''2024-03-03''"
  "days_before new_york_2024 1 ''2024-03-10'' = Inr ''2024-03-09''"
  "days_before new_york_2024 7 ''2024-03-10'' = Inr ''2024-03-03''"
  by code_simp+

text \<open>
  C1. The table says that \<^verbatim>\<open>yesterday\<close> yields the day before the server date, for every
  server date. The code reads the server date as UTC midnight, moves it back with the
  local-time methods \<^verbatim>\<open>getDate\<close> and \<^verbatim>\<open>setDate\<close>, and prints the UTC date of the
  result. In a browser in New York with server date 2024-11-04 (the day after the clocks
  went back), UTC midnight is 19:00 on November 3 local time; one day earlier, 19:00 on
  November 2, is daylight time, 23:00 UTC on November 2: \<^verbatim>\<open>getDateRange\<close> returns
  2024-11-02 for both dates, two days before the server date.
\<close>

theorem getDateRange_yesterday_across_dst:
  "getDateRange new_york_world (shown_cells\<lparr>serverDate := ''2024-11-04'', timeframe := Yesterday\<rparr>)
     = ([], Inr (''2024-11-02'', ''2024-11-02''))"
proof -
  have "days_before new_york_2024 1 ''2024-11-04'' = Inr ''2024-11-02''"
    by code_simp
  then show ?thesis
    by (simp add: getDateRange_def range_for_def new_york_world_def shown_cells_def
        initial_dashboard_def good_world_def)
qed

subsection \<open>The end date\<close>

text \<open>
  C2. The claim is that the end date is the server date for every timeframe but
  \<^verbatim>\<open>custom\<close>, \<^verbatim>\<open>yesterday\<close> included. With the server date 2024-03-10 stored, in a
  UTC browser, \<^verbatim>\<open>getDateRange\<close> returns 2024-03-09 for both dates of
  \<^verbatim>\<open>yesterday\<close>.
\<close>

theorem yesterday_end_date_counterexample:
  "timeframe (shown_cells\<lparr>timeframe := Yesterday\<rparr>) \<noteq> Custom
   \<and> serverDate (shown_cells\<lparr>timeframe := Yesterday\<rparr>) = ''2024-03-10''
   \<and> getDateRange good_world (shown_cells\<lparr>timeframe := Yesterday\<rparr>)
       = ([], Inr (''2024-03-09'', ''2024-03-09''))"
proof -
  have "days_before (fixed_zone 0) 1 ''2024-03-10'' = Inr ''2024-03-09''"
    by code_simp
  then show ?thesis
    by (simp add: getDateRange_def range_for_def shown_cells_def
        initial_dashboard_def good_world_def)
qed

lemma getDateRange_today_of:
  "getDateRange w s =
     (case snd (today_of w s) of
        Inl e \<Rightarrow> (fst (today_of w s), Inl e)
      | Inr today \<Rightarrow> (fst (today_of w s), range_for (zone w) s today))"
  by (cases "today_of w s") (simp add: getDateRange_def today_of_def split: sum.splits)

text \<open>
  C2, amended. The reference date of a call is the stored \<^verbatim>\<open>serverDate\<close> or, when none
  is stored, the date \<^verbatim>\<open>fetchServerDate\<close> returns. For every reference date of the
  years 0001 to 9999, every time zone with offsets of less than a day, and every
  timeframe other than \<^verbatim>\<open>custom\<close>, \<^verbatim>\<open>getDateRange\<close> returns a range, with no action
  of its own beyond resolving the reference date; its end date is the reference date for
  \<^verbatim>\<open>live\<close>, \<^verbatim>\<open>weekly\<close> and \<^verbatim>\<open>monthly\<close>, and for \<^verbatim>\<open>yesterday\<close> it is the start
  date, which is the UTC date of the instant one local calendar day before the UTC
  midnight of the reference date.
\<close>

theorem end_date_is_reference_date:
  assumes "valid_day d" and "sane_zone (zone w)"
    and "snd (today_of w s) = Inr (date_string d)" and "timeframe s \<noteq> Custom"
  shows "\<exists>a b. getDateRange w s = (fst (today_of w s), Inr (a, b))
    \<and> (if timeframe s = Yesterday
        then b = a \<and> a = date_string (Day (shifted (zone w) 1 d))
        else b = date_string d)"
proof -
  have g: "getDateRange w s = (fst (today_of w s), range_for (zone w) s (date_string d))"
    by (simp add: getDateRange_today_of assms(3))
  have r: "days_before (zone w) n (date_string d)
      = Inr (date_string (Day (shifted (zone w) n d)))" if "0 \<le> n" "n \<le> 30" for n
    using days_before_returns [OF assms(2,1) that] .
  show ?thesis
    using assms(4) by (cases "timeframe s") (simp_all add: g range_for_def r)
qed

theorem end_date_is_reference_date_witness:
  "valid_day 19792 \<and> sane_zone (zone good_world)
   \<and> today_of good_world (initial_dashboard\<lparr>timeframe := Weekly\<rparr>)
       = ([Get ''/server-date'' [], SetServerDate ''2024-03-10''], Inr ''2024-03-10'')
   \<and> (\<exists>a. getDateRange good_world (initial_dashboard\<lparr>timeframe := Weekly\<rparr>)
             = ([Get ''/server-date'' [], SetServerDate ''2024-03-10''], Inr (a, ''2024-03-10'')))
   \<and> today_of good_world (shown_cells\<lparr>timeframe := Yesterday\<rparr>) = ([], Inr ''2024-03-10'')
   \<and> (\<exists>a. getDateRange good_world (shown_cells\<lparr>timeframe := Yesterday\<rparr>) = ([], Inr (a, a)))"
proof -
  have t: "today_of good_world (initial_dashboard\<lparr>timeframe := Weekly\<rparr>)
      = ([Get ''/server-date'' [], SetServerDate ''2024-03-10''], Inr ''2024-03-10'')"
    by (simp add: today_of_def initial_dashboard_def fetchServerDate_def good_world_def)
  have u: "today_of good_world (shown_cells\<lparr>timeframe := Yesterday\<rparr>) = ([], Inr ''2024-03-10'')"
    by (simp add: today_of_def shown_cells_def)
  have "snd (today_of good_world (initial_dashboard\<lparr>timeframe := Weekly\<rparr>))
      = Inr (date_string 19792)"
    by (simp add: t date_string_19792)
  moreover have "timeframe ((initial_dashboard :: (nat, int) dashboard)\<lparr>timeframe := Weekly\<rparr>)
      \<noteq> Custom" by simp
  ultimately have "\<exists>a. getDateRange good_world (initial_dashboard\<lparr>timeframe := Weekly\<rparr>)
      = ([Get ''/server-date'' [], SetServerDate ''2024-03-10''], Inr (a, ''2024-03-10''))"
    using end_date_is_reference_date [OF valid_day_19792 sane_good_world,
        of "initial_dashboard\<lparr>timeframe := Weekly\<rparr>"]
    by (simp add: t date_string_19792)
  moreover have "snd (today_of good_world (shown_cells\<lparr>timeframe := Yesterday\<rparr>))
      = Inr (date_string 19792)"
    by (simp add: u date_string_19792)
  then have "\<exists>a. getDateRange good_world (shown_cells\<lparr>timeframe := Yesterday\<rparr>) = ([], Inr (a, a))"
    using end_date_is_reference_date [OF valid_day_19792 sane_good_world,
        of "shown_cells\<lparr>timeframe := Yesterday\<rparr>"]
    by (auto simp: u)
  ultimately show ?thesis
    using t u valid_day_19792 sane_good_world by blast
qed

text \<open>
  The date computed for \<^verbatim>\<open>yesterday\<close> is the day before the reference date wherever the
  offset of the zone does not change in between (\<open>days_before_fixed_zone\<close>). Across a
  change it need not be: it is two days before in New York on 2024-11-04 (C1), and it is
  the reference date itself in Apia on 2011-12-31, the day after the one the zone skipped.
\<close>

lemma sane_apia: "sane_zone apia_2011"
  by (simp add: sane_zone_def apia_2011_def msPerDay_def msPerHour_def)

lemma yesterday_can_be_the_reference_date:
  "getDateRange apia_world (shown_cells\<lparr>serverDate := ''2011-12-31'', timeframe := Yesterday\<rparr>)
     = ([], Inr (''2011-12-31'', ''2011-12-31''))"
proof -
  have "days_before apia_2011 1 ''2011-12-31'' = Inr ''2011-12-31''"
    by code_simp
  then show ?thesis
    by (simp add: getDateRange_def range_for_def apia_world_def shown_cells_def
        initial_dashboard_def good_world_def)
qed

subsection \<open>The order of the two dates\<close>

text \<open>
  C8. For every reference date of the years 0001 to 9999, every time zone with offsets of
  less than a day and every timeframe other than \<^verbatim>\<open>custom\<close>, \<^verbatim>\<open>getDateRange\<close> returns
  a range whose start date is not after its end date. For \<^verbatim>\<open>custom\<close> nothing enforces
  the order: there are user-supplied dates that are returned as they are, with the start
  date after the end date.
\<close>

theorem start_date_not_after_end_date:
  assumes "valid_day d" and "sane_zone (zone w)" and "serverDate s = date_string d"
  shows "(timeframe s \<noteq> Custom \<longrightarrow>
            (\<exists>a b. snd (getDateRange w s) = Inr (a, b) \<and> date_le a b))
    \<and> (\<exists>x y. snd (getDateRange w (s\<lparr>timeframe := Custom, customStart := x, customEnd := y\<rparr>))
              = Inr (x, y)
          \<and> \<not> date_le x y \<and> date_le y x)"
proof -
  have ne: "serverDate s \<noteq> []"
    using date_string_nonempty [of d] assms(3) by simp
  have g: "snd (getDateRange w s) = range_for (zone w) s (date_string d)"
    using getDateRange_stored [OF ne, of w] assms(3) by simp
  have r: "days_before (zone w) n (date_string d)
      = Inr (date_string (Day (shifted (zone w) n d)))" if "0 \<le> n" "n \<le> 30" for n
    using days_before_returns [OF assms(2,1) that] .
  have dd: "date_le (date_string d) (date_string d)"
    using valid_day_parses [OF assms(1)] by (simp add: date_le_date_string)
  have ordered: "\<exists>a b. snd (getDateRange w s) = Inr (a, b) \<and> date_le a b"
    if "timeframe s \<noteq> Custom"
    using that dd date_le_shifted [OF assms(1,2), of 1] date_le_shifted [OF assms(1,2), of 7]
      date_le_shifted [OF assms(1,2), of 30]
    by (cases "timeframe s") (simp_all add: g range_for_def r)
  have p: "\<not> date_le ''2024-03-10'' ''2024-03-01''" "date_le ''2024-03-01'' ''2024-03-10''"
    by code_simp+
  have "snd (getDateRange w (s\<lparr>timeframe := Custom, customStart := ''2024-03-10'',
      customEnd := ''2024-03-01''\<rparr>)) = Inr (''2024-03-10'', ''2024-03-01'')"
    using ne by (simp add: getDateRange_def range_for_def)
  with p have "\<exists>x y. snd (getDateRange w (s\<lparr>timeframe := Custom, customStart := x,
      customEnd := y\<rparr>)) = Inr (x, y) \<and> \<not> date_le x y \<and> date_le y x"
    by blast
  with ordered show ?thesis by blast
qed

theorem start_date_not_after_end_date_witness:
  "valid_day 19792 \<and> sane_zone (zone good_world)
   \<and> (\<exists>a b. snd (getDateRange good_world (shown_cells\<lparr>timeframe := Monthly\<rparr>)) = Inr (a, b)
         \<and> date_le a b)"
  using start_date_not_after_end_date [OF valid_day_19792 sane_good_world shown_cells_date,
      of Monthly]
  by (simp add: valid_day_19792 sane_good_world)

subsection \<open>The two implementations\<close>

lemma fetchServerDate_same_result: "snd (fetchServerDate w) = snd (fetchServerDate_old w)"
  by (simp add: fetchServerDate_def fetchServerDate_old_def formatDate_iso_date split: sum.splits)

lemma range_for_same:
  assumes "old_timeframe t = old_timeframe_of (timeframe s)"
    and "old_customStart t = customStart s" and "old_customEnd t = customEnd s"
  shows "range_for z s today = range_for_old z t today"
  using assms
  by (cases "timeframe s")
    (simp_all add: range_for_def range_for_old_def old_timeframe_of_def split: sum.splits)

text \<open>
  C9. On corresponding inputs (the same server date, the same custom dates, and the same
  timeframe, with \<^verbatim>\<open>live\<close> for the older \<^verbatim>\<open>daily\<close>) the \<^verbatim>\<open>getDateRange\<close> of
  \<^verbatim>\<open>Dashboard.tsx\<close> and that of the older dashboard return the same pair of dates, or
  both throw the same exception, in every time zone and whatever the server answers.
\<close>

theorem getDateRange_agrees_with_older:
  assumes "same_inputs s t"
  shows "snd (getDateRange w s) = snd (getDateRange_old w t)"
proof -
  from assms have r: "range_for (zone w) s today = range_for_old (zone w) t today" for today
    by (intro range_for_same) (simp_all add: same_inputs_def)
  show ?thesis
  proof (cases "serverDate s = []")
    case True
    with assms have o: "old_serverDate t = None \<or> old_serverDate t = Some []"
      by (auto simp: same_inputs_def split: option.splits)
    have "snd (getDateRange w s) =
        (case snd (fetchServerDate w) of Inl e \<Rightarrow> Inl e | Inr today \<Rightarrow> range_for (zone w) s today)"
      using True by (simp add: getDateRange_def split: prod.splits sum.splits)
    moreover have "snd (getDateRange_old w t) =
        (case snd (fetchServerDate_old w) of Inl e \<Rightarrow> Inl e
         | Inr today \<Rightarrow> range_for_old (zone w) t today)"
      using o by (auto simp: getDateRange_old_def split: prod.splits sum.splits)
    ultimately show ?thesis
      by (simp add: fetchServerDate_same_result r split: sum.splits)
  next
    case False
    with assms have o: "old_serverDate t = Some (serverDate s)"
      by (auto simp: same_inputs_def split: option.splits)
    show ?thesis
      using False o by (simp add: getDateRange_def getDateRange_old_def r)
  qed
qed

theorem getDateRange_agrees_with_older_witness:
  "same_inputs (shown_cells\<lparr>timeframe := Weekly\<rparr>) old_shown_cells
   \<and> snd (getDateRange good_world (shown_cells\<lparr>timeframe := Weekly\<rparr>))
       = Inr (''2024-03-03'', ''2024-03-10'')
   \<and> snd (getDateRange_old good_world old_shown_cells) = Inr (''2024-03-03'', ''2024-03-10'')"
proof -
  have s: "same_inputs (shown_cells\<lparr>timeframe := Weekly\<rparr>) old_shown_cells"
    by (simp add: same_inputs_def shown_cells_def old_shown_cells_def old_timeframe_of_def
        initial_dashboard_def)
  have "days_before (fixed_zone 0) 7 ''2024-03-10'' = Inr ''2024-03-03''"
    by code_simp
  then have "snd (getDateRange_old good_world old_shown_cells) = Inr (''2024-03-03'', ''2024-03-10'')"
    by (simp add: getDateRange_old_def range_for_old_def old_shown_cells_def good_world_def)
  with s getDateRange_agrees_with_older [OF s, of good_world] show ?thesis by simp
qed

subsection \<open>The fallback of fetchServerDate\<close>

text \<open>
  C10. The claim is that, when the server-date request fails, the date of the browser's
  local clock is stored and returned. The code formats \<^verbatim>\<open>new Date()\<close> with
  \<^verbatim>\<open>toISOString\<close>, which prints the UTC date: at 20:00 on March 9 in a browser at UTC-5
  (2024-03-10T01:00Z) the request fails, and \<^verbatim>\<open>fetchServerDate\<close> returns 2024-03-10
  while the local date is 2024-03-09.
\<close>

theorem fallback_is_not_local_date:
  "server_date_reply evening_world = Inl NetworkError
   \<and> snd (fetchServerDate evening_world) = Inr ''2024-03-10''
   \<and> local_date_string (zone evening_world) (clock evening_world) = ''2024-03-09''"
proof -
  have "formatDate (Some 1710032400000) = Inr ''2024-03-10''"
    by code_simp
  moreover have "local_date_string (fixed_zone (- 5 * msPerHour)) 1710032400000 = ''2024-03-09''"
    by code_simp
  ultimately show ?thesis
    by (simp add: fetchServerDate_def evening_world_def offline_world_def good_world_def)
qed

text \<open>
  What the code does when the request fails: it logs the error and does not throw; it
  stores the UTC calendar date of the browser's clock, formatted as \<^verbatim>\<open>YYYY-MM-DD\<close>, as
  the server date, and returns it. Every later date-range derivation that reads the
  stored server date uses it as the reference date, without a new request.
\<close>

theorem fetchServerDate_falls_back_to_utc_date:
  assumes "server_date_reply w = Inl e"
  shows "fetchServerDate w =
      ([Get ''/server-date'' [], ConsoleError ''fetchServerDate:'',
        SetServerDate (date_string (Day (clock w)))],
       Inr (date_string (Day (clock w))))
    \<and> serverDate (apply_effects s (fst (fetchServerDate w))) = date_string (Day (clock w))
    \<and> getDateRange w' (apply_effects s (fst (fetchServerDate w))) =
        ([], range_for (zone w') (apply_effects s (fst (fetchServerDate w)))
               (date_string (Day (clock w))))"
proof -
  have f: "fetchServerDate w =
      ([Get ''/server-date'' [], ConsoleError ''fetchServerDate:'',
        SetServerDate (date_string (Day (clock w)))],
       Inr (date_string (Day (clock w))))"
    using assms by (simp add: fetchServerDate_def formatDate_iso_date)
  have sd: "serverDate (apply_effects s (fst (fetchServerDate w))) = date_string (Day (clock w))"
    by (simp add: f apply_effects_def)
  show ?thesis
    using getDateRange_stored [of "apply_effects s (fst (fetchServerDate w))" w']
      date_string_nonempty [of "Day (clock w)"] f sd
    by simp
qed

theorem fetchServerDate_falls_back_to_utc_date_witness:
  "server_date_reply offline_world = Inl NetworkError
   \<and> snd (fetchServerDate offline_world) = Inr ''2024-03-10''
   \<and> getDateRange good_world
        (apply_effects (initial_dashboard :: (nat, int) dashboard) (fst (fetchServerDate offline_world)))
      = ([], Inr (''2024-03-10'', ''2024-03-10''))"
proof -
  let ?s = "apply_effects (initial_dashboard :: (nat, int) dashboard)
      (fst (fetchServerDate offline_world))"
  have r: "server_date_reply offline_world = Inl NetworkError"
    by (simp add: offline_world_def)
  have c: "date_string (Day (clock offline_world)) = ''2024-03-10''"
    by (simp add: offline_world_def good_world_def Day_def msPerDay_def date_string_19792)
  note h = fetchServerDate_falls_back_to_utc_date [OF r,
        of "initial_dashboard :: (nat, int) dashboard" good_world, unfolded c]
  from h have fe: "fetchServerDate offline_world =
      ([Get ''/server-date'' [], ConsoleError ''fetchServerDate:'', SetServerDate ''2024-03-10''],
       Inr ''2024-03-10'')"
    by (rule conjunct1)
  from h have g: "getDateRange good_world ?s = ([], range_for (zone good_world) ?s ''2024-03-10'')"
    by blast
  have f: "snd (fetchServerDate offline_world) = Inr ''2024-03-10''"
    and e: "fst (fetchServerDate offline_world) =
      [Get ''/server-date'' [], ConsoleError ''fetchServerDate:'', SetServerDate ''2024-03-10'']"
    by (simp_all add: fe)
  have t: "timeframe ?s = Live"
    unfolding e by (simp add: apply_effects_def initial_dashboard_def)
  have "range_for (zone good_world) ?s ''2024-03-10'' = Inr (''2024-03-10'', ''2024-03-10'')"
    by (simp add: range_for_def t)
  with r f g show ?thesis by simp
qed

section \<open>Calls that are not awaited: every action is performed\<close>


lemma segments_nonempty: "[] \<notin> set (segments req es)"
  by (induction es) (auto split: list.splits)


lemma pending_filter: "pending (filter (\<lambda>t. t \<noteq> []) ts) = pending ts"
  unfolding pending_def by (induction ts) auto








text \<open>With the empty schedule the calls settle one after another.\<close>

lemma run_tasks_in_order:
  "pending ts \<le> n \<Longrightarrow> run_tasks n [] ts = concat (concat ts)"
proof (induction n arbitrary: ts)
  case 0
  then have "\<forall>t \<in> set ts. t = []" by (auto simp: pending_def)
  then show ?case by (induction ts) auto
next
  case (Suc n)
  let ?w = "filter (\<lambda>t. t \<noteq> []) ts"
  have c: "concat (concat ?w) = concat (concat ts)"
    by (induction ts) auto
  show ?case
  proof (cases ?w)
    case Nil
    then show ?thesis using c by simp
  next
    case (Cons t rest)
    then have ne: "t \<noteq> []"
      by (metis (mono_tags, lifting) filter_eq_ConsD)
    have "pending (tl t # rest) \<le> n"
      using Suc.prems pending_filter [of ts] ne by (cases t) (simp_all add: Cons pending_def)
    from Suc.IH [OF this] have "run_tasks n [] (tl t # rest) = concat (tl t) @ concat (concat rest)"
      by simp
    then have "run_tasks (Suc n) [] ts = hd t @ concat (tl t) @ concat (concat rest)"
      by (simp add: Cons Let_def)
    also have "\<dots> = concat (concat ?w)"
      using ne by (cases t) (simp_all add: Cons)
    finally show ?thesis using c by simp
  qed
qed

lemma complete_in_order:
  "complete [] cs = concat (map now cs) @ concat (map soon cs) @ concat (concat (map later cs))"
proof -
  have "pending (map later cs) \<le> sum_list (map (\<lambda>c. length (later c)) cs)"
    by (simp add: pending_def comp_def)
  from run_tasks_in_order [OF this] show ?thesis
    by (simp add: complete_def)
qed








section \<open>The mounted component\<close>

subsection \<open>Effects never touch the user's inputs or the timers\<close>



lemma apply_effects_refreshKey:
  "IncRefreshKey \<notin> set es \<Longrightarrow> refreshKey (apply_effects s es) = refreshKey s"
  unfolding apply_effects_def
proof (induction es arbitrary: s)
  case Nil
  then show ?case by simp
next
  case (Cons e es)
  then show ?case by (cases e) simp_all
qed







lemma perform_refreshKey:
  "IncRefreshKey \<notin> set es \<Longrightarrow>
     refreshKey (cells (fst (perform og es r))) = refreshKey (cells (fst r))"
  by (cases r) (simp add: perform_def apply_effects_refreshKey)

lemma perform_log: "snd (perform og es r) = snd r @ map (Pair og) es"
  by (cases r) (simp add: perform_def)





lemma run_effects_idle:
  assumes "inputs (cells c) = inputs old" and "refreshKey (cells c) = refreshKey old"
  shows "run_effects w old (c, lg) = (c, lg)"
  using assms by (simp add: run_effects_def Let_def inputs_def)

subsection \<open>The interval follows the timeframe\<close>















lemma request_in_effects:
  assumes "snd (getDateRange w s) = Inr (a, b)"
  shows "report_request a b \<in> set (fst (fetchReport w silent s))"
proof (cases "report_reply w a b")
  case (Inl e)
  show ?thesis
    by (simp add: fetchReport_def fetchReport_try_request_throws [OF assms Inl])
next
  case (Inr d)
  show ?thesis
    by (simp add: fetchReport_success_effects [OF assms Inr] loading_brackets_def)
qed


subsection \<open>Runs in a concrete world\<close>

lemmas call_defs = direct_def deferred_def first_segment_def other_segments_def
  complete_in_order

lemmas run_defs = step_def run_effects_def handle_event_def perform_def apply_effects_def
  perform_all_def plain_call_def report_call_def is_request_def init_def
  fetchReport_def fetchReport_try_def getDateRange_def range_for_def fetchServerDate_def
  report_request_def balance_effects_def or_zero_def fetchBalance_def fetchASRChart_def
  fetchConnectedCallsChart_def auto_refresh_effect_def clearInterval_def Let_def
  fetchReport_catch_def error_message_def asr_name_def cc_name_def

lemma mount_good:
  "fst (mount good_world) =
     \<lparr>cells = mounted_cells,
      intervals = [\<lparr>handle = 1, delay = 60000, closure = initial_dashboard\<rparr>],
      next_handle = 2, cleanup = Some 1\<rparr>"
  by (simp add: mount_def run_defs call_defs good_world_def sample_report_def
      initial_dashboard_def mounted_cells_def formatDate_def toISOString_def)

lemma yesterday_utc: "days_before (fixed_zone 0) 1 ''2024-03-10'' = Inr ''2024-03-09''"
  by code_simp

lemma good_step_1:
  "fst (step good_world (ClickTimeframe Custom) mounted) = idle (mounted_cells\<lparr>timeframe := Custom\<rparr>)"
  by (simp add: run_defs good_world_def sample_report_def mounted_def idle_def mounted_cells_def)

lemma good_step_2:
  "fst (step good_world (InputCustomStart ''2024-03-01'') (idle (mounted_cells\<lparr>timeframe := Custom\<rparr>)))
     = idle (mounted_cells\<lparr>timeframe := Custom, customStart := ''2024-03-01''\<rparr>)"
  by (simp add: run_defs idle_def mounted_cells_def)

lemma good_step_3:
  "fst (step good_world (ClickTimeframe Yesterday)
      (idle (mounted_cells\<lparr>timeframe := Custom, customStart := ''2024-03-01''\<rparr>)))
     = idle (mounted_cells\<lparr>timeframe := Yesterday, customStart := ''2024-03-01''\<rparr>)"
  by (simp add: run_defs good_world_def sample_report_def idle_def mounted_cells_def yesterday_utc)

lemma good_step_4:
  "step good_world (ClickTimeframe Custom)
      (idle (mounted_cells\<lparr>timeframe := Yesterday, customStart := ''2024-03-01''\<rparr>))
     = (idle (mounted_cells\<lparr>timeframe := Custom, customStart := ''2024-03-01''\<rparr>),
        map (Pair ByEffect)
         [report_request ''2024-03-01'' ''2024-03-10'', SetData (Some sample_report),
          SetBalance 35, SetError None])"
  by (simp add: run_defs good_world_def sample_report_def idle_def mounted_cells_def)


lemma before_switch_eq:
  "before_switch = idle (mounted_cells\<lparr>timeframe := Yesterday, customStart := ''2024-03-01''\<rparr>)"
  by (simp add: before_switch_def session_def mount_good [folded mounted_def]
      good_step_1 good_step_2 good_step_3)

subsection \<open>The timer of the older dashboard\<close>













subsection \<open>Auto-refresh\<close>





subsection \<open>The custom range\<close>

lemma automatic_request: "automatic_report_fetch (ByEffect, report_request a b)"
  by (simp add: automatic_report_fetch_def report_request_def)

text \<open>
  C6. The claim is that no automatic report fetch is issued while the timeframe is custom
  and only one custom date is set. In \<^verbatim>\<open>Dashboard.tsx\<close> the report effect depends on
  the timeframe and calls \<^verbatim>\<open>fetchReport(true)\<close> without a guard: when the user, with
  only the start date 2024-03-01 typed in, comes back to the custom timeframe, the effect
  sends \<^verbatim>\<open>GET /report\<close> for 2024-03-01 to 2024-03-10 (the server date stands in for
  the missing end date) and replaces the report data, with no click on Apply.
\<close>

theorem switching_to_custom_fetches_incomplete_range:
  "customStart (cells before_switch) = ''2024-03-01''
   \<and> customEnd (cells before_switch) = []
   \<and> timeframe (cells (fst (step good_world (ClickTimeframe Custom) before_switch))) = Custom
   \<and> snd (step good_world (ClickTimeframe Custom) before_switch) =
       map (Pair ByEffect)
         [report_request ''2024-03-01'' ''2024-03-10'', SetData (Some sample_report),
          SetBalance 35, SetError None]
   \<and> list_ex automatic_report_fetch (snd (step good_world (ClickTimeframe Custom) before_switch))"
  by (simp add: before_switch_eq good_step_4 automatic_request)
    (simp add: idle_def mounted_cells_def)

text \<open>What holds of the claim: typing a date fetches nothing, and Apply is dead until both are set.\<close>

lemma typing_a_date_fetches_nothing:
  "snd (step w (InputCustomStart v) c) = [] \<and> snd (step w (InputCustomEnd v) c) = []"
  by (simp add: step_def handle_event_def run_effects_def Let_def)

lemma apply_needs_both_dates:
  assumes "customStart (cells c) = [] \<or> customEnd (cells c) = []"
  shows "step w ClickApply c = (c, [])"
  using assms by (auto simp: step_def handle_event_def run_effects_idle)

text \<open>The guard of the older \<^verbatim>\<open>fetchReport\<close>: nothing happens on an incomplete custom range.\<close>

lemma fetchReport_old_guard:
  assumes "old_timeframe s = OldCustom" and "old_customStart s = [] \<or> old_customEnd s = []"
  shows "fetchReport_old w silent s = ([], Inr ())"
  using assms by (auto simp: fetchReport_old_def)

text \<open>The newer one has no such guard: in custom mode it always sends the request.\<close>

lemma getDateRange_custom_returns:
  assumes "timeframe s = Custom"
  shows "\<exists>a b. snd (getDateRange w s) = Inr (a, b)"
proof (cases "serverDate s = []")
  case True
  then show ?thesis
    using assms
    by (simp add: getDateRange_def fetchServerDate_def range_for_def formatDate_iso_date
        split: sum.splits)
next
  case False
  then show ?thesis
    using assms by (simp add: getDateRange_def range_for_def)
qed

lemma switching_to_custom_always_fetches:
  assumes "timeframe (cells c) \<noteq> Custom"
  shows "list_ex automatic_report_fetch (snd (step w (ClickTimeframe Custom) c))"
proof -
  let ?s = "(cells c)\<lparr>timeframe := Custom\<rparr>"
  from getDateRange_custom_returns [of ?s w] obtain a b where
    r: "snd (getDateRange w ?s) = Inr (a, b)" by auto
  have "(ByEffect, report_request a b) \<in> set (snd (step w (ClickTimeframe Custom) c))"
    using assms request_in_effects [OF r, of True]
    by (simp add: step_def handle_event_def run_effects_def Let_def perform_log)
  with automatic_request [of a b] show ?thesis
    unfolding list_ex_iff by blast
qed

end
